theory Spec2Isabelle
  imports Main "HOL-Library.Word"
begin

unbundle bit_operations_syntax

section \<open>The EEPROM driver of the soldering station (Src/eeprom.c)\<close>

text \<open>
  The module keeps a wear-levelled log of one configuration record in chunks 0..63 of an
  AT24C32 EEPROM and a table of tip calibration records in chunks 64..127. All access to the
  IC goes through one static 32 byte buffer \<open>data\<close>; \<open>chunk_in_data\<close> remembers which chunk
  the buffer holds. The C statics become the fields of one state record that every function
  takes and returns; the EEPROM IC and the I2C transport are part of that state too.
\<close>

subsection \<open>Constants\<close>

type_synonym byte = "8 word"

definition eeprom_chunk_size :: nat where
  "eeprom_chunk_size = 32"

definition eeprom_chunks :: "16 word" where
  "eeprom_chunks = 128"

definition cfg_chunks :: "16 word" where
  "cfg_chunks = 64"

definition tip_chunks :: "16 word" where
  "tip_chunks = 64"

subsection \<open>Bytes of a 32 bit field\<close>

text \<open>
  The controller is a little-endian Cortex-M: the byte at the lowest address of a
  \<open>uint32_t\<close> is its least significant one.
\<close>

definition le32 :: "32 word \<Rightarrow> byte list" where
  "le32 w = [ucast w, ucast (drop_bit 8 w), ucast (drop_bit 16 w), ucast (drop_bit 24 w)]"

definition of_le32 :: "byte list \<Rightarrow> 32 word" where
  "of_le32 bs = ucast (bs ! 0) OR push_bit 8 (ucast (bs ! 1))
              OR push_bit 16 (ucast (bs ! 2)) OR push_bit 24 (ucast (bs ! 3))"

definition get_u32 :: "byte list \<Rightarrow> nat \<Rightarrow> 32 word" where
  "get_u32 bs off = of_le32 (take 4 (drop off bs))"

definition set_u32 :: "byte list \<Rightarrow> nat \<Rightarrow> 32 word \<Rightarrow> byte list" where
  "set_u32 bs off v = take off bs @ le32 v @ drop (off + 4) bs"

subsection \<open>The configuration record\<close>

text \<open>
  \<open>RECORD\<close> is declared in a header that is not part of the source at hand. eeprom.c uses
  three things of it: \<open>sizeof(RECORD)\<close>, the field \<open>ID\<close> (compared with and assigned to
  \<open>uint32_t\<close> variables) and the field \<open>crc\<close> (read into and written from the \<open>uint32_t\<close>
  accumulator). They are taken as a parameter: the size of the structure and the byte offsets
  of the two fields. A record is the list of the bytes of the structure, which is how
  \<open>CFG_checkSum\<close> and \<open>memcpy\<close> look at it.
\<close>

record layout =
  rec_sz :: nat
  id_off :: nat
  crc_off :: nat

text \<open>
  Modelled from the spec: the checksum field is as wide as the accumulator (the spec's
  "full-width stored checksum"), so both fields are four bytes wide. The record fits into one
  chunk (comment at the head of eeprom.c) and the two fields do not overlap.
\<close>

definition layout_ok :: "layout \<Rightarrow> bool" where
  "layout_ok L \<longleftrightarrow>
     rec_sz L \<le> eeprom_chunk_size \<and> id_off L + 4 \<le> rec_sz L \<and> crc_off L + 4 \<le> rec_sz L \<and>
     (id_off L + 4 \<le> crc_off L \<or> crc_off L + 4 \<le> id_off L)"

type_synonym RECORD = "byte list"

definition get_ID :: "layout \<Rightarrow> RECORD \<Rightarrow> 32 word" where
  "get_ID L cfg = get_u32 cfg (id_off L)"

definition set_ID :: "layout \<Rightarrow> RECORD \<Rightarrow> 32 word \<Rightarrow> RECORD" where
  "set_ID L cfg v = set_u32 cfg (id_off L) v"

definition get_crc :: "layout \<Rightarrow> RECORD \<Rightarrow> 32 word" where
  "get_crc L cfg = get_u32 cfg (crc_off L)"

definition set_crc :: "layout \<Rightarrow> RECORD \<Rightarrow> 32 word \<Rightarrow> RECORD" where
  "set_crc L cfg v = set_u32 cfg (crc_off L) v"

text \<open>The loop of \<open>CFG_checkSum\<close> over the bytes \<open>d[0]\<close> .. \<open>d[sizeof(RECORD) - 1]\<close>.\<close>

fun cfg_summ :: "32 word \<Rightarrow> byte list \<Rightarrow> 32 word" where
  "cfg_summ summ [] = summ"
| "cfg_summ summ (b # d) = cfg_summ (push_bit 1 summ + ucast b) d"

text \<open>
  \<open>CFG_checkSum\<close> works in place: it returns the verdict together with the record as it
  leaves it. The field \<open>crc\<close> is set to zero before the walk and only written again when
  \<open>write\<close> is set.
\<close>

definition CFG_checkSum :: "layout \<Rightarrow> RECORD \<Rightarrow> bool \<Rightarrow> bool \<times> RECORD" where
  "CFG_checkSum L cfg write =
     (let rec_summ = get_crc L cfg;
          cfg0 = set_crc L cfg 0;
          summ = cfg_summ 117 (take (rec_sz L) cfg0);
          res = (rec_summ = summ)
      in (res, if write then set_crc L cfg0 summ else cfg0))"

subsection \<open>The state: statics of the module, the EEPROM IC and the bus\<close>

text \<open>
  \<open>HAL_I2C_Mem_Read\<close> and \<open>HAL_I2C_Mem_Write\<close> belong to the vendor library. The code only
  tests their status against \<open>HAL_OK\<close>. In the model the status of each coming call is
  taken from a script; a call that fails may have moved the first bytes of the block before
  it gave up (\<open>HAL_ERROR n\<close>: \<open>n\<close> bytes moved). When the script is used up calls succeed.
  Every call is appended to a trace, so that a theorem can say that no call was made.
  \<open>HAL_Delay\<close> only waits and has no counterpart here.
\<close>

datatype hal_status = HAL_OK | HAL_ERROR nat

datatype io_event = Mem_Read nat | Mem_Write nat

record eeprom =
  can_write :: bool
  r_chunk :: "16 word"
  w_chunk :: "16 word"
  data :: "byte list"
  chunk_in_data :: "16 word"
  mem :: "nat \<Rightarrow> byte"
  script :: "hal_status list"
  trace :: "io_event list"

fun next_status :: "hal_status list \<Rightarrow> hal_status \<times> hal_status list" where
  "next_status [] = (HAL_OK, [])"
| "next_status (r # rs) = (r, rs)"

definition mem_block :: "(nat \<Rightarrow> byte) \<Rightarrow> nat \<Rightarrow> nat \<Rightarrow> byte list" where
  "mem_block m addr n = map m [addr ..< addr + n]"

definition mem_store :: "(nat \<Rightarrow> byte) \<Rightarrow> nat \<Rightarrow> byte list \<Rightarrow> (nat \<Rightarrow> byte)" where
  "mem_store m addr bs = (\<lambda>a. if addr \<le> a \<and> a < addr + length bs then bs ! (a - addr) else m a)"

definition HAL_I2C_Mem_Read :: "nat \<Rightarrow> eeprom \<Rightarrow> hal_status \<times> eeprom" where
  "HAL_I2C_Mem_Read addr s =
     (let (st, rest) = next_status (script s);
          s1 = s\<lparr>script := rest, trace := trace s @ [Mem_Read addr]\<rparr>
      in case st of
           HAL_OK \<Rightarrow> (HAL_OK, s1\<lparr>data := mem_block (mem s) addr eeprom_chunk_size\<rparr>)
         | HAL_ERROR n \<Rightarrow>
             (HAL_ERROR n,
              s1\<lparr>data := mem_block (mem s) addr (min n eeprom_chunk_size)
                          @ drop (min n eeprom_chunk_size) (data s)\<rparr>))"

definition HAL_I2C_Mem_Write :: "nat \<Rightarrow> eeprom \<Rightarrow> hal_status \<times> eeprom" where
  "HAL_I2C_Mem_Write addr s =
     (let (st, rest) = next_status (script s);
          s1 = s\<lparr>script := rest, trace := trace s @ [Mem_Write addr]\<rparr>
      in case st of
           HAL_OK \<Rightarrow> (HAL_OK, s1\<lparr>mem := mem_store (mem s) addr (take eeprom_chunk_size (data s))\<rparr>)
         | HAL_ERROR n \<Rightarrow>
             (HAL_ERROR n,
              s1\<lparr>mem := mem_store (mem s) addr (take (min n eeprom_chunk_size) (data s))\<rparr>))"

text \<open>The statics as the C initialisers leave them, in front of a given IC and script.\<close>

definition power_on :: "(nat \<Rightarrow> byte) \<Rightarrow> hal_status list \<Rightarrow> eeprom" where
  "power_on m sc =
     \<lparr>can_write = False, r_chunk = 0, w_chunk = 0, data = replicate eeprom_chunk_size 0,
      chunk_in_data = 65535, mem = m, script = sc, trace = []\<rparr>"

subsection \<open>Reading and writing a chunk\<close>

definition readChunk :: "16 word \<Rightarrow> eeprom \<Rightarrow> bool \<times> eeprom" where
  "readChunk chunk_index s =
     (if chunk_index = chunk_in_data s then (True, s)
      else if chunk_index \<ge> eeprom_chunks then (False, s)
      else
        let addr = unat (chunk_index * 32)
        in case HAL_I2C_Mem_Read addr s of
             (HAL_OK, s1) \<Rightarrow> (True, s1\<lparr>chunk_in_data := chunk_index\<rparr>)
           | (HAL_ERROR n, s1) \<Rightarrow> (False, s1))"

definition writeChunk :: "16 word \<Rightarrow> eeprom \<Rightarrow> bool \<times> eeprom" where
  "writeChunk chunk_index s =
     (if chunk_index \<ge> eeprom_chunks then (False, s)
      else
        let addr = unat (chunk_index * 32);
            s0 = s\<lparr>chunk_in_data := eeprom_chunks\<rparr>
        in case HAL_I2C_Mem_Write addr s0 of
             (HAL_OK, s1) \<Rightarrow> (True, s1\<lparr>chunk_in_data := chunk_index\<rparr>)
           | (HAL_ERROR n, s1) \<Rightarrow> (False, s1))"

subsection \<open>The configuration log\<close>

text \<open>
  \<open>RECORD* cfg = (RECORD*)data; CFG_checkSum(cfg, false)\<close>: the record checked is the
  head of the buffer itself, so what \<open>CFG_checkSum\<close> does to the record it does to the buffer.
\<close>

definition CFG_checkSum_data :: "layout \<Rightarrow> eeprom \<Rightarrow> bool \<times> eeprom" where
  "CFG_checkSum_data L s =
     (let (res, cfg) = CFG_checkSum L (take (rec_sz L) (data s)) False
      in (res, s\<lparr>data := cfg @ drop (rec_sz L) (data s)\<rparr>))"

text \<open>The local variables of \<open>EEPROM_init\<close>.\<close>

record scan =
  min_rec_ID :: "32 word"
  min_rec_ch :: "16 word"
  max_rec_ID :: "32 word"
  max_rec_ch :: "16 word"
  records :: "16 word"

definition scan_start :: scan where
  "scan_start = \<lparr>min_rec_ID = 0xffffffff, min_rec_ch = 0, max_rec_ID = 0, max_rec_ch = 0,
                  records = 0\<rparr>"

text \<open>The bookkeeping of the loop body for a chunk whose record passed the check.\<close>

definition note_record :: "scan \<Rightarrow> 16 word \<Rightarrow> 32 word \<Rightarrow> scan" where
  "note_record v chunk ID =
     (let v1 = v\<lparr>records := records v + 1\<rparr>;
          v2 = (if min_rec_ID v1 > ID then v1\<lparr>min_rec_ID := ID, min_rec_ch := chunk\<rparr> else v1)
      in if max_rec_ID v2 < ID then v2\<lparr>max_rec_ID := ID, max_rec_ch := chunk\<rparr> else v2)"

function init_scan :: "layout \<Rightarrow> 16 word \<Rightarrow> scan \<Rightarrow> eeprom \<Rightarrow> scan \<times> eeprom" where
  "init_scan L chunk v s =
     (if chunk < cfg_chunks then
        (case readChunk chunk s of
           (True, s1) \<Rightarrow>
             (case CFG_checkSum_data L s1 of
                (True, s2) \<Rightarrow> init_scan L (chunk + 1) (note_record v chunk (get_ID L (data s2))) s2
              | (False, s2) \<Rightarrow> (v, s2))
         | (False, s1) \<Rightarrow> (v, s1))
      else (v, s))"
  by pat_completeness auto
termination
proof (relation "measure (\<lambda>(L, chunk, v, s). 64 - unat chunk)")
  show "wf (measure (\<lambda>(L, chunk, v, s). 64 - unat chunk))"
    by simp
next
  fix L :: layout and chunk :: "16 word" and v :: scan and s x2a :: eeprom
  assume "chunk < cfg_chunks"
  then have "unat chunk < 64"
    by (simp add: cfg_chunks_def word_less_nat_alt)
  then have "unat (chunk + 1) = unat chunk + 1"
    by (simp add: unat_word_ariths)
  with \<open>unat chunk < 64\<close>
  show "((L, chunk + 1, note_record v chunk (get_ID L (data x2a)), x2a), L, chunk, v, s)
          \<in> measure (\<lambda>(L, chunk, v, s). 64 - unat chunk)"
    by simp
qed

definition EEPROM_init :: "layout \<Rightarrow> eeprom \<Rightarrow> eeprom" where
  "EEPROM_init L s =
     (let (v, s1) = init_scan L 0 scan_start s
      in if records v = 0 then s1\<lparr>w_chunk := 0, r_chunk := 0, can_write := True\<rparr>
         else
           let s2 = s1\<lparr>r_chunk := max_rec_ch v\<rparr>;
               s3 = (if records v < cfg_chunks then
                       (let s' = s2\<lparr>w_chunk := r_chunk s2 + 1\<rparr>
                        in if w_chunk s' \<ge> cfg_chunks then s'\<lparr>w_chunk := 0\<rparr> else s')
                     else s2\<lparr>w_chunk := min_rec_ch v\<rparr>)
           in s3\<lparr>can_write := True\<rparr>)"

text \<open>
  \<open>loadRecord\<close> and \<open>saveRecord\<close> take a pointer to the caller's record. The model returns
  the record as the call leaves it next to the result.
\<close>

definition loadRecord :: "layout \<Rightarrow> RECORD \<Rightarrow> eeprom \<Rightarrow> bool \<times> RECORD \<times> eeprom" where
  "loadRecord L config_record s =
     (case readChunk (r_chunk s) s of
        (True, s1) \<Rightarrow>
          (case CFG_checkSum_data L s1 of
             (True, s2) \<Rightarrow> (True, take (rec_sz L) (data s2), s2)
           | (False, s2) \<Rightarrow> (False, config_record, s2))
      | (False, s1) \<Rightarrow> (False, config_record, s1))"

definition saveRecord :: "layout \<Rightarrow> RECORD \<Rightarrow> eeprom \<Rightarrow> bool \<times> RECORD \<times> eeprom" where
  "saveRecord L config_record s =
     (if \<not> can_write s then (can_write s, config_record, s)
      else
        let r1 = set_ID L config_record (get_ID L config_record + 1);
            r2 = snd (CFG_checkSum L r1 True);
            s1 = s\<lparr>data := take (rec_sz L) r2 @ drop (rec_sz L) (data s)\<rparr>
        in case writeChunk (w_chunk s1) s1 of
             (True, s2) \<Rightarrow>
               (let s3 = s2\<lparr>r_chunk := w_chunk s2\<rparr>;
                    s4 = s3\<lparr>w_chunk := w_chunk s3 + 1\<rparr>
                in (True, r2, if w_chunk s4 \<ge> cfg_chunks then s4\<lparr>w_chunk := 0\<rparr> else s4))
           | (False, s2) \<Rightarrow> (False, r2, s2))"

subsection \<open>The tip table\<close>

text \<open>
  Modelled from the spec: \<open>TIP\<close> and \<open>tip_name_sz\<close> are declared in iron_tips.h, which is
  not part of the source at hand. The comments of eeprom.c give the size (16 bytes, two
  records per chunk); \<open>TIP_checkSum\<close> gives the fields: four calibration points, a mask, the
  ambient temperature, a name of \<open>tip_name_sz\<close> characters and an 8 bit checksum. With 16 bit
  calibration points that leaves five characters for the name. The order of the fields in
  memory is taken to be the one below; no theorem depends on it.
\<close>

record TIP =
  t200 :: "16 word"
  t260 :: "16 word"
  t330 :: "16 word"
  t400 :: "16 word"
  mask :: byte
  name :: "byte list"
  ambient :: byte
  crc :: byte

definition tip_name_sz :: nat where
  "tip_name_sz = 5"

definition sizeof_TIP :: nat where
  "sizeof_TIP = 16"

definition le16 :: "16 word \<Rightarrow> byte list" where
  "le16 w = [ucast w, ucast (drop_bit 8 w)]"

definition of_le16 :: "byte list \<Rightarrow> 16 word" where
  "of_le16 bs = ucast (bs ! 0) OR push_bit 8 (ucast (bs ! 1))"

definition TIP_bytes :: "TIP \<Rightarrow> byte list" where
  "TIP_bytes tip =
     le16 (t200 tip) @ le16 (t260 tip) @ le16 (t330 tip) @ le16 (t400 tip) @ [mask tip]
     @ take tip_name_sz (name tip @ replicate tip_name_sz 0) @ [ambient tip, crc tip]"

definition TIP_of_bytes :: "byte list \<Rightarrow> TIP" where
  "TIP_of_bytes bs =
     \<lparr>t200 = of_le16 (take 2 bs), t260 = of_le16 (take 2 (drop 2 bs)),
      t330 = of_le16 (take 2 (drop 4 bs)), t400 = of_le16 (take 2 (drop 6 bs)),
      mask = bs ! 8, name = take tip_name_sz (drop 9 bs), ambient = bs ! 14, crc = bs ! 15\<rparr>"

fun tip_name_summ :: "32 word \<Rightarrow> byte list \<Rightarrow> 32 word" where
  "tip_name_summ summ [] = summ"
| "tip_name_summ summ (c # cs) = tip_name_summ (push_bit 1 summ + ucast c) cs"

text \<open>
  \<open>ambient\<close> is taken to be a signed byte and is widened with its sign. The checksum only
  keeps the low 8 bits of the sum, which do not depend on how the byte is widened.
\<close>

definition TIP_checkSum :: "TIP \<Rightarrow> bool \<Rightarrow> bool \<times> TIP" where
  "TIP_checkSum tip write =
     (let summ = (ucast (t200 tip) :: 32 word);
          summ = push_bit 1 summ + ucast (t260 tip);
          summ = push_bit 1 summ + ucast (t330 tip);
          summ = push_bit 1 summ + ucast (t400 tip);
          summ = push_bit 1 summ + ucast (mask tip);
          summ = push_bit 1 summ + scast (ambient tip);
          summ = tip_name_summ summ (take tip_name_sz (name tip));
          summ = summ + 117;
          res = ((ucast (crc tip) :: 32 word) = summ AND 0xFF)
      in (res, if write then tip\<lparr>crc := ucast (summ AND 0xFF)\<rparr> else tip))"

text \<open>
  The loop of \<open>requiredTipSpace\<close>: \<open>i\<close> starts at 1 and doubles. The test \<open>0 < i\<close> is not in
  the C code; it holds on every path from 1 and makes the recursion total.
\<close>

function tip_space_from :: "nat \<Rightarrow> nat \<Rightarrow> nat" where
  "tip_space_from tip_sz i =
     (if 0 < i \<and> i \<le> eeprom_chunk_size then
        (if i \<ge> tip_sz then i else tip_space_from tip_sz (2 * i))
      else eeprom_chunk_size)"
  by pat_completeness auto
termination
  by (relation "measure (\<lambda>(tip_sz, i). Suc eeprom_chunk_size - i)") auto

definition requiredTipSpace :: "16 word" where
  "requiredTipSpace = of_nat (tip_space_from sizeof_TIP 1)"

definition tipDataTotal :: "16 word" where
  "tipDataTotal =
     (let tip_space = requiredTipSpace;
          tips_per_chunk = (of_nat (eeprom_chunk_size div unat tip_space) :: 16 word)
      in of_nat (unat tip_chunks * unat tips_per_chunk))"

datatype TIP_IO_STATUS = EPR_OK | EPR_IO | EPR_CHECKSUM | EPR_INDEX

text \<open>
  The comparison and the address arithmetic are done in \<open>int\<close> after the integer promotions;
  the values are small, so natural numbers model them. \<open>tip_chunk\<close> is stored into a
  \<open>uint16_t\<close> and \<open>index\<close> into a \<open>uint8_t\<close>.
\<close>

definition loadTipData :: "TIP \<Rightarrow> 8 word \<Rightarrow> eeprom \<Rightarrow> TIP_IO_STATUS \<times> TIP \<times> eeprom" where
  "loadTipData tip tip_chunk_index s =
     (let tip_space = requiredTipSpace;
          tips_per_chunk = (of_nat (eeprom_chunk_size div unat tip_space) :: 16 word)
      in if unat tip_chunk_index > unat tip_chunks * unat tips_per_chunk then (EPR_INDEX, tip, s)
         else
           let tip_chunk = (of_nat (unat tip_chunk_index div unat tips_per_chunk
                                    + unat eeprom_chunks - unat tip_chunks) :: 16 word);
               index = (of_nat ((unat tip_chunk_index mod unat tips_per_chunk) * unat tip_space)
                          :: 8 word)
           in case readChunk tip_chunk s of
                (True, s1) \<Rightarrow>
                  (let tmp_tip = TIP_of_bytes (take sizeof_TIP (drop (unat index) (data s1)))
                   in if fst (TIP_checkSum tmp_tip False) then (EPR_OK, tmp_tip, s1)
                      else (EPR_CHECKSUM, tip, s1))
              | (False, s1) \<Rightarrow> (EPR_IO, tip, s1))"

definition saveTipData :: "TIP \<Rightarrow> 8 word \<Rightarrow> eeprom \<Rightarrow> TIP_IO_STATUS \<times> eeprom" where
  "saveTipData tip tip_chunk_index s =
     (let tip_space = requiredTipSpace;
          tips_per_chunk = (of_nat (eeprom_chunk_size div unat tip_space) :: 16 word)
      in if unat tip_chunk_index > unat tip_chunks * unat tips_per_chunk then (EPR_INDEX, s)
         else
           let tip_chunk = (of_nat (unat tip_chunk_index div unat tips_per_chunk
                                    + unat eeprom_chunks - unat tip_chunks) :: 16 word);
               index = (of_nat ((unat tip_chunk_index mod unat tips_per_chunk) * unat tip_space)
                          :: 8 word)
           in case readChunk tip_chunk s of
                (True, s1) \<Rightarrow>
                  (let tmp_tip = snd (TIP_checkSum tip True);
                       s2 = s1\<lparr>data := take (unat index) (data s1) @ TIP_bytes tmp_tip
                                         @ drop (unat index + sizeof_TIP) (data s1)\<rparr>
                   in case writeChunk tip_chunk s2 of
                        (True, s3) \<Rightarrow> (EPR_OK, s3)
                      | (False, s3) \<Rightarrow> (EPR_IO, s3))
              | (False, s1) \<Rightarrow> (EPR_IO, s1))"

subsection \<open>Erasing the configuration area\<close>

text \<open>
  The first loop fills the buffer with \<open>0xFF\<close>; \<open>chunk_in_data\<close> is left as it is. The
  second loop writes the buffer to the chunks of the configuration area, straight through the
  transport, and stops at the first failure.
\<close>

function clear_from :: "nat \<Rightarrow> eeprom \<Rightarrow> eeprom" where
  "clear_from i s =
     (if i < unat cfg_chunks then
        (case HAL_I2C_Mem_Write (i * eeprom_chunk_size) s of
           (HAL_OK, s1) \<Rightarrow> clear_from (i + 1) s1
         | (HAL_ERROR n, s1) \<Rightarrow> s1)
      else s)"
  by pat_completeness auto
termination
  by (relation "measure (\<lambda>(i, s). unat cfg_chunks - i)") auto

definition clearConfigArea :: "layout \<Rightarrow> eeprom \<Rightarrow> eeprom" where
  "clearConfigArea L s =
     EEPROM_init L (clear_from 0 (s\<lparr>data := replicate eeprom_chunk_size 0xFF\<rparr>))"

subsection \<open>Auxiliary notions for the statements\<close>

text \<open>The state after a read of chunk \<open>c\<close> that went to the transport and succeeded.\<close>

definition read_ok :: "16 word \<Rightarrow> eeprom \<Rightarrow> eeprom" where
  "read_ok c s = s\<lparr>script := snd (next_status (script s)),
                   trace := trace s @ [Mem_Read (unat c * 32)],
                   data := mem_block (mem s) (unat c * 32) eeprom_chunk_size,
                   chunk_in_data := c\<rparr>"

text \<open>The number of transport reads in a trace.\<close>

fun is_read :: "io_event \<Rightarrow> bool" where
  "is_read (Mem_Read a) = True"
| "is_read (Mem_Write a) = False"

definition transport_reads :: "io_event list \<Rightarrow> nat" where
  "transport_reads t = length (filter is_read t)"

text \<open>An IC in the erased state: every byte reads \<open>0xFF\<close>.\<close>

definition erased_ic :: "nat \<Rightarrow> byte" where
  "erased_ic a = 0xFF"

text \<open>
  The record as \<open>saveRecord\<close> leaves it in the caller's memory: identifier incremented,
  checksum stamped.
\<close>

definition stamped :: "layout \<Rightarrow> RECORD \<Rightarrow> RECORD" where
  "stamped L p = snd (CFG_checkSum L (set_ID L p (get_ID L p + 1)) True)"

text \<open>The write pointer after a successful save.\<close>

definition next_w :: "16 word \<Rightarrow> 16 word" where
  "next_w w = (if w + 1 \<ge> cfg_chunks then 0 else w + 1)"

text \<open>
  The state after a save whose chunk write succeeded, and after one whose chunk write failed
  in the transport having moved \<open>n\<close> bytes.
\<close>

definition saved :: "layout \<Rightarrow> RECORD \<Rightarrow> eeprom \<Rightarrow> eeprom" where
  "saved L p s =
     s\<lparr>data := take (rec_sz L) (stamped L p) @ drop (rec_sz L) (data s),
       script := snd (next_status (script s)),
       trace := trace s @ [Mem_Write (unat (w_chunk s) * 32)],
       mem := mem_store (mem s) (unat (w_chunk s) * 32)
                (take eeprom_chunk_size
                   (take (rec_sz L) (stamped L p) @ drop (rec_sz L) (data s))),
       chunk_in_data := w_chunk s,
       r_chunk := w_chunk s,
       w_chunk := next_w (w_chunk s)\<rparr>"

definition save_failed :: "layout \<Rightarrow> RECORD \<Rightarrow> nat \<Rightarrow> eeprom \<Rightarrow> eeprom" where
  "save_failed L p n s =
     s\<lparr>data := take (rec_sz L) (stamped L p) @ drop (rec_sz L) (data s),
       script := snd (next_status (script s)),
       trace := trace s @ [Mem_Write (unat (w_chunk s) * 32)],
       mem := mem_store (mem s) (unat (w_chunk s) * 32)
                (take (min n eeprom_chunk_size)
                   (take (rec_sz L) (stamped L p) @ drop (rec_sz L) (data s))),
       chunk_in_data := eeprom_chunks\<rparr>"

text \<open>
  The initialisation scan in the words of the specification. \<open>visit\<close> is what the scan does
  at one chunk: read it through the cache and validate the buffer; the chunk counts when both
  succeed, and then yields the identifier of its record. \<open>valid_prefix\<close> visits the chunks
  from \<open>k\<close> upward, stops at the first chunk that does not count or at the end of the
  configuration area, and returns the identifiers of the chunks that counted, in chunk order,
  together with the state it ends in.
\<close>

definition visit :: "layout \<Rightarrow> 16 word \<Rightarrow> eeprom \<Rightarrow> 32 word option \<times> eeprom" where
  "visit L chunk s =
     (case readChunk chunk s of
        (True, s1) \<Rightarrow>
          (case CFG_checkSum_data L s1 of
             (True, s2) \<Rightarrow> (Some (get_ID L (data s2)), s2)
           | (False, s2) \<Rightarrow> (None, s2))
      | (False, s1) \<Rightarrow> (None, s1))"

function valid_prefix :: "layout \<Rightarrow> nat \<Rightarrow> eeprom \<Rightarrow> 32 word list \<times> eeprom" where
  "valid_prefix L k s =
     (if k < unat cfg_chunks then
        (case visit L (of_nat k) s of
           (Some i, s1) \<Rightarrow> (case valid_prefix L (Suc k) s1 of (ids, s2) \<Rightarrow> (i # ids, s2))
         | (None, s1) \<Rightarrow> ([], s1))
      else ([], s))"
  by pat_completeness auto
termination
  by (relation "measure (\<lambda>(L, k, s). unat cfg_chunks - k)") auto

declare init_scan.simps [simp del] valid_prefix.simps [simp del]

text \<open>The bookkeeping of the scan over a list of identifiers found from chunk \<open>k\<close> on.\<close>

fun track :: "nat \<Rightarrow> scan \<Rightarrow> 32 word list \<Rightarrow> scan" where
  "track k v [] = v"
| "track k v (i # ids) = track (Suc k) (note_record v (of_nat k) i) ids"

text \<open>
  What the local variables of \<open>EEPROM_init\<close> know after the identifiers \<open>pre\<close> have been
  seen: the count, the extreme identifiers, and the first chunk holding each of them.
\<close>

definition scan_inv :: "32 word list \<Rightarrow> scan \<Rightarrow> bool" where
  "scan_inv pre v \<longleftrightarrow>
     records v = of_nat (length pre) \<and>
     (\<forall>j<length pre. pre ! j \<le> max_rec_ID v) \<and>
     (\<forall>j<length pre. min_rec_ID v \<le> pre ! j) \<and>
     (if pre = [] then max_rec_ID v = 0 \<and> max_rec_ch v = 0 \<and>
                       min_rec_ID v = 0xffffffff \<and> min_rec_ch v = 0
      else unat (max_rec_ch v) < length pre \<and> pre ! unat (max_rec_ch v) = max_rec_ID v \<and>
           (\<forall>j<unat (max_rec_ch v). pre ! j < max_rec_ID v) \<and>
           unat (min_rec_ch v) < length pre \<and> pre ! unat (min_rec_ch v) = min_rec_ID v \<and>
           (\<forall>j<unat (min_rec_ch v). min_rec_ID v < pre ! j))"

text \<open>
  A layout and a record for the examples: 20 bytes, the identifier in front, the checksum
  after it.
\<close>

definition sample_layout :: layout where
  "sample_layout = \<lparr>rec_sz = 20, id_off = 0, crc_off = 4\<rparr>"

definition sample_record :: RECORD where
  "sample_record = [0, 0, 0, 0, 0, 0, 0, 0, 1, 2, 3, 4, 5, 6, 7, 8, 9, 10, 11, 12]"

text \<open>
  \<open>n\<close> consecutive calls of \<open>saveRecord\<close> on the caller's record, each working on the record
  and the state the one before has left. The result is \<open>True\<close> when all of them succeeded.
\<close>

fun saves :: "layout \<Rightarrow> nat \<Rightarrow> RECORD \<Rightarrow> eeprom \<Rightarrow> bool \<times> RECORD \<times> eeprom" where
  "saves L 0 p s = (True, p, s)"
| "saves L (Suc n) p s =
     (case saveRecord L p s of
        (True, p', s') \<Rightarrow> saves L n p' s'
      | (False, p', s') \<Rightarrow> (False, p', s'))"


text \<open>
  The cache invariant of the specification: when \<open>chunk_in_data\<close> names a chunk of the IC,
  the buffer holds the bytes the IC holds for that chunk.
\<close>

definition cache_coherent :: "eeprom \<Rightarrow> bool" where
  "cache_coherent s \<longleftrightarrow>
     eeprom_chunks \<le> chunk_in_data s \<or>
     data s = mem_block (mem s) (unat (chunk_in_data s) * 32) eeprom_chunk_size"

text \<open>A record whose identifier is 16 below the largest 32 bit number.\<close>

definition late_record :: RECORD where
  "late_record = [0xF0, 0xFF, 0xFF, 0xFF, 0, 0, 0, 0, 1, 2, 3, 4, 5, 6, 7, 8, 9, 10, 11, 12]"

section \<open>Properties\<close>

subsection \<open>Slot arithmetic of the tip table\<close>

lemma requiredTipSpace_16: "requiredTipSpace = 16"
  by (simp add: requiredTipSpace_def sizeof_TIP_def eeprom_chunk_size_def)

lemma tipDataTotal_128: "tipDataTotal = 128"
  by (simp add: tipDataTotal_def requiredTipSpace_16 eeprom_chunk_size_def tip_chunks_def)

lemma loadTipData_index: "fst (loadTipData tip i s) = EPR_INDEX \<longleftrightarrow> unat i > 128"
  by (simp add: loadTipData_def requiredTipSpace_16 eeprom_chunk_size_def tip_chunks_def Let_def
      split: prod.splits bool.splits)

lemma saveTipData_index: "fst (saveTipData tip i s) = EPR_INDEX \<longleftrightarrow> unat i > 128"
  by (simp add: saveTipData_def requiredTipSpace_16 eeprom_chunk_size_def tip_chunks_def Let_def
      split: prod.splits bool.splits)

lemma loadTipData_index_no_io: "unat i > 128 \<Longrightarrow> loadTipData tip i s = (EPR_INDEX, tip, s)"
  by (simp add: loadTipData_def requiredTipSpace_16 eeprom_chunk_size_def tip_chunks_def Let_def)

lemma saveTipData_index_no_io: "unat i > 128 \<Longrightarrow> saveTipData tip i s = (EPR_INDEX, s)"
  by (simp add: saveTipData_def requiredTipSpace_16 eeprom_chunk_size_def tip_chunks_def Let_def)

text \<open>
  Claim C1: \<open>loadTipData\<close> and \<open>saveTipData\<close> report an index error exactly when the slot
  index is outside \<open>[0, totalSlots)\<close>, before any transport call. The code compares with
  \<open>>\<close>: the slot index 128, which equals the total number of slots and is the first one
  outside the range, is not answered with \<open>EPR_INDEX\<close> by either function, whatever the
  state and the tip record. (Above 128 both return \<open>EPR_INDEX\<close> and leave the state alone,
  see \<open>loadTipData_index_no_io\<close> and \<open>saveTipData_index_no_io\<close>.)
\<close>

theorem tip_index_check_admits_total:
  "unat (128 :: 8 word) = unat tipDataTotal \<and>
   fst (loadTipData tip 128 s) \<noteq> EPR_INDEX \<and> fst (saveTipData tip 128 s) \<noteq> EPR_INDEX"
  by (simp add: loadTipData_index saveTipData_index tipDataTotal_128)

subsection \<open>The chunk layer\<close>

lemma chunk_addr: "c < eeprom_chunks \<Longrightarrow> unat (c * 32) = unat c * 32"
  by (simp add: eeprom_chunks_def word_less_nat_alt unat_word_ariths)

lemma HAL_read_ok:
  "fst (next_status (script s)) = HAL_OK \<Longrightarrow>
   HAL_I2C_Mem_Read addr s =
     (HAL_OK, s\<lparr>script := snd (next_status (script s)), trace := trace s @ [Mem_Read addr],
                data := mem_block (mem s) addr eeprom_chunk_size\<rparr>)"
  by (cases "next_status (script s)") (simp add: HAL_I2C_Mem_Read_def)

lemma HAL_read_error:
  "fst (next_status (script s)) = HAL_ERROR n \<Longrightarrow>
   HAL_I2C_Mem_Read addr s =
     (HAL_ERROR n, s\<lparr>script := snd (next_status (script s)), trace := trace s @ [Mem_Read addr],
                data := mem_block (mem s) addr (min n eeprom_chunk_size)
                          @ drop (min n eeprom_chunk_size) (data s)\<rparr>)"
  by (cases "next_status (script s)") (simp add: HAL_I2C_Mem_Read_def)

lemma HAL_write_ok:
  "fst (next_status (script s)) = HAL_OK \<Longrightarrow>
   HAL_I2C_Mem_Write addr s =
     (HAL_OK, s\<lparr>script := snd (next_status (script s)), trace := trace s @ [Mem_Write addr],
                mem := mem_store (mem s) addr (take eeprom_chunk_size (data s))\<rparr>)"
  by (cases "next_status (script s)") (simp add: HAL_I2C_Mem_Write_def)

lemma HAL_write_error:
  "fst (next_status (script s)) = HAL_ERROR n \<Longrightarrow>
   HAL_I2C_Mem_Write addr s =
     (HAL_ERROR n, s\<lparr>script := snd (next_status (script s)), trace := trace s @ [Mem_Write addr],
                mem := mem_store (mem s) addr (take (min n eeprom_chunk_size) (data s))\<rparr>)"
  by (cases "next_status (script s)") (simp add: HAL_I2C_Mem_Write_def)

lemma readChunk_hit: "chunk_in_data s = c \<Longrightarrow> readChunk c s = (True, s)"
  by (simp add: readChunk_def)

lemma readChunk_miss_ok:
  assumes "c \<noteq> chunk_in_data s" "c < eeprom_chunks" "fst (next_status (script s)) = HAL_OK"
  shows "readChunk c s = (True, read_ok c s)"
  using assms
  by (simp add: readChunk_def HAL_read_ok chunk_addr read_ok_def Let_def not_le[symmetric])

lemma readChunk_miss_error:
  assumes "c \<noteq> chunk_in_data s" "c < eeprom_chunks" "fst (next_status (script s)) = HAL_ERROR n"
  shows "readChunk c s =
           (False, s\<lparr>script := snd (next_status (script s)),
                      trace := trace s @ [Mem_Read (unat c * 32)],
                      data := mem_block (mem s) (unat c * 32) (min n eeprom_chunk_size)
                                @ drop (min n eeprom_chunk_size) (data s)\<rparr>)"
  using assms
  by (simp add: readChunk_def HAL_read_error chunk_addr Let_def not_le[symmetric])

lemma readChunk_True:
  assumes "readChunk c s = (True, s')"
  shows "(c = chunk_in_data s \<and> s' = s) \<or>
         (c \<noteq> chunk_in_data s \<and> c < eeprom_chunks \<and> fst (next_status (script s)) = HAL_OK \<and>
          s' = read_ok c s)"
proof (cases "c = chunk_in_data s")
  case True
  with assms show ?thesis by (simp add: readChunk_def)
next
  case False
  with assms have r: "c < eeprom_chunks"
    by (auto simp add: readChunk_def not_le split: if_splits)
  with assms False have "fst (next_status (script s)) = HAL_OK"
    by (cases "fst (next_status (script s))") (simp_all add: readChunk_miss_error)
  with assms False r show ?thesis
    by (simp add: readChunk_miss_ok)
qed

lemma writeChunk_out: "eeprom_chunks \<le> c \<Longrightarrow> writeChunk c s = (False, s)"
  by (simp add: writeChunk_def)

lemma writeChunk_ok:
  assumes "c < eeprom_chunks" "fst (next_status (script s)) = HAL_OK"
  shows "writeChunk c s =
           (True, s\<lparr>script := snd (next_status (script s)),
                     trace := trace s @ [Mem_Write (unat c * 32)],
                     mem := mem_store (mem s) (unat c * 32) (take eeprom_chunk_size (data s)),
                     chunk_in_data := c\<rparr>)"
  using assms
  by (simp add: writeChunk_def HAL_write_ok chunk_addr Let_def not_le[symmetric])

lemma writeChunk_error:
  assumes "c < eeprom_chunks" "fst (next_status (script s)) = HAL_ERROR n"
  shows "writeChunk c s =
           (False, s\<lparr>script := snd (next_status (script s)),
                     trace := trace s @ [Mem_Write (unat c * 32)],
                     mem := mem_store (mem s) (unat c * 32) (take (min n eeprom_chunk_size) (data s)),
                     chunk_in_data := eeprom_chunks\<rparr>)"
  using assms
  by (simp add: writeChunk_def HAL_write_error chunk_addr Let_def not_le[symmetric])

lemma writeChunk_False_dirty:
  assumes "c < eeprom_chunks" "writeChunk c s = (False, s')"
  shows "chunk_in_data s' = eeprom_chunks"
proof (cases "fst (next_status (script s))")
  case HAL_OK
  with assms show ?thesis by (simp add: writeChunk_ok)
next
  case (HAL_ERROR n)
  with assms show ?thesis by (auto simp add: writeChunk_error)
qed


lemma loadTipData_128:
  "chunk_in_data s = 128 \<Longrightarrow>
   loadTipData tip 128 s =
     (let t = TIP_of_bytes (take sizeof_TIP (data s))
      in if fst (TIP_checkSum t False) then (EPR_OK, t, s) else (EPR_CHECKSUM, tip, s))"
  by (simp add: loadTipData_def requiredTipSpace_16 eeprom_chunk_size_def tip_chunks_def Let_def
      eeprom_chunks_def readChunk_hit)

lemma saveTipData_128:
  "chunk_in_data s = 128 \<Longrightarrow>
   saveTipData tip 128 s =
     (EPR_IO, s\<lparr>data := TIP_bytes (snd (TIP_checkSum tip True)) @ drop sizeof_TIP (data s)\<rparr>)"
  by (simp add: saveTipData_def requiredTipSpace_16 eeprom_chunk_size_def tip_chunks_def Let_def
      eeprom_chunks_def readChunk_hit writeChunk_def)

text \<open>
  Claim C10: a chunk write that fails leaves the dirty mark \<open>eeprom_chunks = 128\<close> in
  \<open>chunk_in_data\<close>; \<open>readChunk\<close> compares with \<open>chunk_in_data\<close> before it checks the range,
  so \<open>readChunk 128\<close> then answers \<open>True\<close> and returns the very same state: buffer, IC and
  trace of transport calls are untouched. Slot index 128 (the total number of slots) passes
  the bound check of \<open>loadTipData\<close> and \<open>saveTipData\<close> and leads to chunk 128:
  \<open>loadTipData\<close> decodes a tip from the stale buffer and \<open>saveTipData\<close> patches the stale
  buffer, both without a transport call. The hypothesis covers every chunk write the module
  issues: an index in range, or index 128 when the mark is already set.
\<close>

theorem dirty_mark_is_a_cache_hit:
  assumes "c < eeprom_chunks \<or> chunk_in_data s = eeprom_chunks"
    and "writeChunk c s = (False, s')"
  shows "chunk_in_data s' = eeprom_chunks \<and> eeprom_chunks = 128 \<and>
         unat (128 :: 8 word) = unat tipDataTotal \<and>
         readChunk 128 s' = (True, s') \<and>
         loadTipData tip 128 s' =
           (let t = TIP_of_bytes (take sizeof_TIP (data s'))
            in if fst (TIP_checkSum t False) then (EPR_OK, t, s') else (EPR_CHECKSUM, tip, s')) \<and>
         saveTipData tip 128 s' =
           (EPR_IO, s'\<lparr>data := TIP_bytes (snd (TIP_checkSum tip True))
                                  @ drop sizeof_TIP (data s')\<rparr>)"
proof -
  have dirty: "chunk_in_data s' = eeprom_chunks"
  proof (cases "c < eeprom_chunks")
    case True
    then show ?thesis using assms(2) by (rule writeChunk_False_dirty)
  next
    case False
    with assms have "chunk_in_data s = eeprom_chunks" and "s' = s"
      by (simp_all add: writeChunk_out not_less)
    then show ?thesis by simp
  qed
  then have m: "chunk_in_data s' = 128"
    by (simp add: eeprom_chunks_def)
  show ?thesis
    using dirty m
    by (simp add: readChunk_hit loadTipData_128 saveTipData_128 tipDataTotal_128 eeprom_chunks_def)
qed

theorem dirty_mark_is_a_cache_hit_witness:
  "\<not> fst (writeChunk 3 (power_on erased_ic [HAL_ERROR 0])) \<and>
   readChunk 128 (snd (writeChunk 3 (power_on erased_ic [HAL_ERROR 0])))
     = (True, snd (writeChunk 3 (power_on erased_ic [HAL_ERROR 0])))"
proof -
  let ?s = "power_on erased_ic [HAL_ERROR 0]"
  have f: "\<not> fst (writeChunk 3 ?s)"
    by (simp add: writeChunk_def eeprom_chunks_def HAL_I2C_Mem_Write_def power_on_def)
  then have w: "writeChunk 3 ?s = (False, snd (writeChunk 3 ?s))"
    by (simp add: prod_eq_iff)
  have c: "(3 :: 16 word) < eeprom_chunks \<or> chunk_in_data ?s = eeprom_chunks"
    by (simp add: eeprom_chunks_def)
  have "readChunk 128 (snd (writeChunk 3 ?s)) = (True, snd (writeChunk 3 ?s))"
    using dirty_mark_is_a_cache_hit [OF c w] by blast
  with f show ?thesis
    by simp
qed

text \<open>
  Claim C7, as amended: when \<open>readChunk c\<close> succeeds, a second \<open>readChunk c\<close> right after it
  (or after a successful write of the same chunk) succeeds without a transport call and
  leaves the state as it is. The first call issues one transport read when the cache is not
  marked with \<open>c\<close> and none when it is, so the two calls issue at most one transport read.
\<close>

theorem readChunk_twice:
  assumes "readChunk c s = (True, s1)"
  shows "readChunk c s1 = (True, s1) \<and>
         transport_reads (trace s1)
           = transport_reads (trace s) + (if c = chunk_in_data s then 0 else 1) \<and>
         (\<forall>s2. writeChunk c s1 = (True, s2) \<longrightarrow> readChunk c s2 = (True, s2))"
proof -
  from readChunk_True [OF assms] have c1: "chunk_in_data s1 = c"
    by (auto simp add: read_ok_def)
  from readChunk_True [OF assms]
  have n: "transport_reads (trace s1)
           = transport_reads (trace s) + (if c = chunk_in_data s then 0 else 1)"
    by (auto simp add: read_ok_def transport_reads_def)
  have w: "readChunk c s2 = (True, s2)" if "writeChunk c s1 = (True, s2)" for s2
  proof -
    from that have "c < eeprom_chunks"
      by (auto simp add: writeChunk_def not_le split: if_splits)
    with that have "chunk_in_data s2 = c"
      by (cases "fst (next_status (script s1))") (auto simp add: writeChunk_ok writeChunk_error)
    then show ?thesis by (rule readChunk_hit)
  qed
  from c1 n w show ?thesis
    by (simp add: readChunk_hit)
qed


theorem readChunk_twice_witness:
  "readChunk 5 (power_on erased_ic []) = (True, read_ok 5 (power_on erased_ic [])) \<and>
   readChunk 5 (read_ok 5 (power_on erased_ic [])) = (True, read_ok 5 (power_on erased_ic [])) \<and>
   transport_reads (trace (read_ok 5 (power_on erased_ic []))) = 1"
proof -
  have r: "readChunk 5 (power_on erased_ic []) = (True, read_ok 5 (power_on erased_ic []))"
    by (rule readChunk_miss_ok) (simp_all add: power_on_def eeprom_chunks_def)
  have t: "transport_reads (trace (power_on erased_ic [])) = 0"
    and c: "chunk_in_data (power_on erased_ic []) \<noteq> 5"
    by (simp_all add: power_on_def transport_reads_def)
  from readChunk_twice [OF r] r t c show ?thesis
    by simp
qed

text \<open>
  Claim C7 as stated ("exactly one transport read", "the second call returns the buffered
  bytes without any transport call") fails in two ways. When the chunk is cached before the
  first of the two calls, neither call reaches the transport: after one read of chunk 5 on a
  fresh module, the second and the third call both succeed and issue no transport read. And
  a write to the same chunk that fails in between leaves the dirty mark, so the second read
  goes to the transport as well: two transport reads.
\<close>

theorem readChunk_cached_counterexample:
  "fst (readChunk 5 (snd (readChunk 5 (power_on erased_ic [])))) \<and>
   fst (readChunk 5 (snd (readChunk 5 (snd (readChunk 5 (power_on erased_ic [])))))) \<and>
   transport_reads
     (trace (snd (readChunk 5 (snd (readChunk 5 (snd (readChunk 5 (power_on erased_ic []))))))))
     = transport_reads (trace (snd (readChunk 5 (power_on erased_ic [])))) \<and>
   fst (readChunk 5 (power_on erased_ic [HAL_OK, HAL_ERROR 0])) \<and>
   \<not> fst (writeChunk 5 (snd (readChunk 5 (power_on erased_ic [HAL_OK, HAL_ERROR 0])))) \<and>
   fst (readChunk 5 (snd (writeChunk 5 (snd (readChunk 5 (power_on erased_ic [HAL_OK, HAL_ERROR 0])))))) \<and>
   transport_reads (trace (snd (readChunk 5 (snd (writeChunk 5
      (snd (readChunk 5 (power_on erased_ic [HAL_OK, HAL_ERROR 0]))))))))
     = 2"
  by code_simp

subsection \<open>Fields of a record\<close>

lemma le32_inv: "of_le32 (le32 w) = w"
  unfolding of_le32_def le32_def
  apply simp
  apply (rule bit_word_eqI)
  subgoal for n
    by (cases "n < 8"; cases "n < 16"; cases "n < 24") (auto simp add: bit_simps)
  done

lemma length_le32: "length (le32 w) = 4"
  by (simp add: le32_def)

lemma length_set_u32: "off + 4 \<le> length bs \<Longrightarrow> length (set_u32 bs off v) = length bs"
  by (simp add: set_u32_def length_le32)

lemma get_set_u32_same: "off + 4 \<le> length bs \<Longrightarrow> get_u32 (set_u32 bs off v) off = v"
  by (simp add: get_u32_def set_u32_def length_le32 le32_inv)

lemma take4_drop_eq:
  assumes "off + 4 \<le> length xs" "off + 4 \<le> length ys"
    and "\<And>i. off \<le> i \<Longrightarrow> i < off + 4 \<Longrightarrow> xs ! i = ys ! i"
  shows "take 4 (drop off xs) = take 4 (drop off ys)"
  using assms by (intro nth_equalityI) simp_all

lemma nth_set_u32:
  assumes "off + 4 \<le> length bs" "i < length bs"
  shows "set_u32 bs off v ! i = (if off \<le> i \<and> i < off + 4 then le32 v ! (i - off) else bs ! i)"
  using assms
  by (auto simp add: set_u32_def nth_append length_le32 min_def)

lemma get_set_u32_other:
  assumes "o1 + 4 \<le> length bs" "o2 + 4 \<le> length bs" "o1 + 4 \<le> o2 \<or> o2 + 4 \<le> o1"
  shows "get_u32 (set_u32 bs o1 v) o2 = get_u32 bs o2"
  unfolding get_u32_def
  using assms
  by (intro arg_cong [where f = of_le32] take4_drop_eq) (auto simp add: length_set_u32 nth_set_u32)

lemma set_set_u32_same:
  "off + 4 \<le> length bs \<Longrightarrow> set_u32 (set_u32 bs off v) off w = set_u32 bs off w"
  by (simp add: set_u32_def length_le32)

lemma get_u32_append: "off + 4 \<le> length xs \<Longrightarrow> get_u32 (xs @ ys) off = get_u32 xs off"
  by (simp add: get_u32_def)

lemma length_set_ID: "layout_ok L \<Longrightarrow> length p = rec_sz L \<Longrightarrow> length (set_ID L p v) = rec_sz L"
  by (simp add: set_ID_def layout_ok_def length_set_u32)

lemma length_set_crc: "layout_ok L \<Longrightarrow> length p = rec_sz L \<Longrightarrow> length (set_crc L p v) = rec_sz L"
  by (simp add: set_crc_def layout_ok_def length_set_u32)

lemma get_ID_set_ID: "layout_ok L \<Longrightarrow> length p = rec_sz L \<Longrightarrow> get_ID L (set_ID L p v) = v"
  by (simp add: set_ID_def get_ID_def layout_ok_def get_set_u32_same)

lemma get_crc_set_crc: "layout_ok L \<Longrightarrow> length p = rec_sz L \<Longrightarrow> get_crc L (set_crc L p v) = v"
  by (simp add: set_crc_def get_crc_def layout_ok_def get_set_u32_same)

lemma get_ID_set_crc:
  "layout_ok L \<Longrightarrow> length p = rec_sz L \<Longrightarrow> get_ID L (set_crc L p v) = get_ID L p"
  by (rule get_set_u32_other [of "crc_off L" p "id_off L" v, folded set_crc_def get_ID_def])
     (auto simp add: layout_ok_def)

lemma set_crc_set_crc:
  "layout_ok L \<Longrightarrow> length p = rec_sz L \<Longrightarrow> set_crc L (set_crc L p v) w = set_crc L p w"
  by (simp add: set_crc_def layout_ok_def set_set_u32_same)

lemma CFG_checkSum_write:
  assumes "layout_ok L" "length p = rec_sz L"
  shows "snd (CFG_checkSum L p True) = set_crc L p (cfg_summ 117 (set_crc L p 0))"
  using assms by (simp add: CFG_checkSum_def Let_def set_crc_set_crc length_set_crc)

lemma CFG_checkSum_read:
  assumes "layout_ok L" "length p = rec_sz L"
  shows "CFG_checkSum L p False = (get_crc L p = cfg_summ 117 (set_crc L p 0), set_crc L p 0)"
  using assms by (simp add: CFG_checkSum_def Let_def length_set_crc)

lemma stamped_eq:
  assumes "layout_ok L" "length p = rec_sz L"
  shows "stamped L p = set_crc L (set_ID L p (get_ID L p + 1))
                         (cfg_summ 117 (set_crc L (set_ID L p (get_ID L p + 1)) 0))"
  using assms by (simp add: stamped_def CFG_checkSum_write length_set_ID)

lemma length_stamped: "layout_ok L \<Longrightarrow> length p = rec_sz L \<Longrightarrow> length (stamped L p) = rec_sz L"
  by (simp add: stamped_eq length_set_crc length_set_ID)

lemma get_ID_stamped:
  "layout_ok L \<Longrightarrow> length p = rec_sz L \<Longrightarrow> get_ID L (stamped L p) = get_ID L p + 1"
  by (simp add: stamped_eq get_ID_set_crc get_ID_set_ID length_set_ID)

lemma get_crc_stamped:
  "layout_ok L \<Longrightarrow> length p = rec_sz L \<Longrightarrow>
   get_crc L (stamped L p) = cfg_summ 117 (set_crc L (set_ID L p (get_ID L p + 1)) 0)"
  by (simp add: stamped_eq get_crc_set_crc length_set_ID)

subsection \<open>Saving the configuration record\<close>

lemma cfg_in_range: "w < cfg_chunks \<Longrightarrow> w < eeprom_chunks"
  by (simp add: cfg_chunks_def eeprom_chunks_def word_less_nat_alt)

lemma saveRecord_disabled: "\<not> can_write s \<Longrightarrow> saveRecord L p s = (False, p, s)"
  by (simp add: saveRecord_def)

lemma saveRecord_ok:
  assumes "can_write s" "w_chunk s < eeprom_chunks" "fst (next_status (script s)) = HAL_OK"
  shows "saveRecord L p s = (True, stamped L p, saved L p s)"
  using assms
  by (simp add: saveRecord_def Let_def stamped_def writeChunk_ok next_w_def saved_def)

lemma saveRecord_error:
  assumes "can_write s" "w_chunk s < eeprom_chunks" "fst (next_status (script s)) = HAL_ERROR n"
  shows "saveRecord L p s = (False, stamped L p, save_failed L p n s)"
  using assms
  by (simp add: saveRecord_def Let_def stamped_def writeChunk_error save_failed_def)

lemma saved_fields:
  "r_chunk (saved L p s) = w_chunk s"
  "w_chunk (saved L p s) = next_w (w_chunk s)"
  "chunk_in_data (saved L p s) = w_chunk s"
  "can_write (saved L p s) = can_write s"
  "script (saved L p s) = snd (next_status (script s))"
  "trace (saved L p s) = trace s @ [Mem_Write (unat (w_chunk s) * 32)]"
  by (simp_all add: saved_def)

lemma save_failed_fields:
  "r_chunk (save_failed L p n s) = r_chunk s"
  "w_chunk (save_failed L p n s) = w_chunk s"
  "chunk_in_data (save_failed L p n s) = eeprom_chunks"
  "can_write (save_failed L p n s) = can_write s"
  "script (save_failed L p n s) = snd (next_status (script s))"
  by (simp_all add: save_failed_def)

lemma data_saved:
  "layout_ok L \<Longrightarrow> length p = rec_sz L \<Longrightarrow>
   data (saved L p s) = stamped L p @ drop (rec_sz L) (data s)"
  by (simp add: saved_def length_stamped)

lemma mem_block_store:
  "n \<le> length bs \<Longrightarrow> mem_block (mem_store m a bs) a n = take n bs"
  by (auto simp add: mem_block_def mem_store_def intro!: nth_equalityI)

lemma mem_saved:
  assumes "layout_ok L" "length p = rec_sz L"
  shows "mem_block (mem (saved L p s)) (unat (w_chunk s) * 32) (rec_sz L) = stamped L p"
proof -
  have "rec_sz L \<le> eeprom_chunk_size"
    using assms(1) by (simp add: layout_ok_def)
  then have "rec_sz L \<le> length (take eeprom_chunk_size
                   (take (rec_sz L) (stamped L p) @ drop (rec_sz L) (data s)))"
    using assms by (simp add: length_stamped)
  then show ?thesis
    using assms by (simp add: saved_def mem_block_store length_stamped)
qed

lemma next_w_mod: "w < cfg_chunks \<Longrightarrow> unat (next_w w) = (unat w + 1) mod unat cfg_chunks"
proof -
  assume "w < cfg_chunks"
  then have u: "unat w < 64"
    by (simp add: cfg_chunks_def word_less_nat_alt)
  then have "unat (w + 1) = unat w + 1"
    by (simp add: unat_word_ariths)
  with u show ?thesis
    by (cases "unat w = 63") (simp_all add: next_w_def cfg_chunks_def word_le_nat_alt)
qed

lemma next_w_less: "next_w w < cfg_chunks"
  by (simp add: next_w_def cfg_chunks_def not_le)


lemma writeChunk_True:
  assumes "writeChunk c s = (True, s')"
  shows "c < eeprom_chunks \<and> fst (next_status (script s)) = HAL_OK"
proof -
  from assms have r: "c < eeprom_chunks"
    by (auto simp add: writeChunk_def not_le split: if_splits)
  with assms show ?thesis
    by (cases "fst (next_status (script s))") (simp_all add: writeChunk_error)
qed

lemma saveRecord_success:
  assumes "saveRecord L p s = (True, p', s')"
  shows "can_write s \<and> w_chunk s < eeprom_chunks \<and> fst (next_status (script s)) = HAL_OK \<and>
         p' = stamped L p \<and> s' = saved L p s"
proof -
  from assms have cw: "can_write s"
    by (auto simp add: saveRecord_def split: if_splits)
  with assms obtain s2 where
    "writeChunk (w_chunk s) (s\<lparr>data := take (rec_sz L) (stamped L p) @ drop (rec_sz L) (data s)\<rparr>)
       = (True, s2)"
    by (auto simp add: saveRecord_def Let_def stamped_def split: prod.splits bool.splits)
  from writeChunk_True [OF this]
  have "w_chunk s < eeprom_chunks" and "fst (next_status (script s)) = HAL_OK"
    by simp_all
  with cw assms show ?thesis
    by (simp add: saveRecord_ok)
qed


lemma saveRecord_w_chunk:
  "w_chunk s < cfg_chunks \<Longrightarrow> w_chunk (snd (snd (saveRecord L p s))) < cfg_chunks"
proof (cases "can_write s")
  case False
  assume "w_chunk s < cfg_chunks"
  with False show ?thesis by (simp add: saveRecord_disabled)
next
  case True
  assume w: "w_chunk s < cfg_chunks"
  show ?thesis
  proof (cases "fst (next_status (script s))")
    case HAL_OK
    with True w show ?thesis
      by (simp add: saveRecord_ok cfg_in_range saved_fields next_w_less)
  next
    case (HAL_ERROR n)
    with True w show ?thesis
      by (simp add: saveRecord_error cfg_in_range save_failed_fields)
  qed
qed

text \<open>
  Claim C5: a save on a store whose writable flag is not set fails at once and leaves the
  record, the statics, the IC and the trace of transport calls as they are. On a writable
  store whose write pointer is a chunk of the configuration area, the save fails when the
  transport write fails, and then both pointers are as before; it succeeds when the transport
  write succeeds, and then the read pointer is the old write pointer and the write pointer is
  the old one plus 1 modulo the 64 chunks of the area. (\<open>EEPROM_init\<close> leaves the write
  pointer inside the area and \<open>saveRecord\<close> keeps it there: \<open>EEPROM_init_w_chunk\<close>,
  \<open>saveRecord_w_chunk\<close>.)
\<close>

theorem saveRecord_pointers:
  "(\<not> can_write s \<longrightarrow> saveRecord L p s = (False, p, s)) \<and>
   (can_write s \<and> w_chunk s < cfg_chunks \<and> fst (next_status (script s)) \<noteq> HAL_OK \<longrightarrow>
      \<not> fst (saveRecord L p s) \<and>
      r_chunk (snd (snd (saveRecord L p s))) = r_chunk s \<and>
      w_chunk (snd (snd (saveRecord L p s))) = w_chunk s) \<and>
   (can_write s \<and> w_chunk s < cfg_chunks \<and> fst (next_status (script s)) = HAL_OK \<longrightarrow>
      fst (saveRecord L p s) \<and>
      r_chunk (snd (snd (saveRecord L p s))) = w_chunk s \<and>
      unat (w_chunk (snd (snd (saveRecord L p s)))) = (unat (w_chunk s) + 1) mod unat cfg_chunks)"
proof (intro conjI impI)
  assume "\<not> can_write s"
  then show "saveRecord L p s = (False, p, s)"
    by (rule saveRecord_disabled)
next
  assume a: "can_write s \<and> w_chunk s < cfg_chunks \<and> fst (next_status (script s)) \<noteq> HAL_OK"
  then obtain n where "fst (next_status (script s)) = HAL_ERROR n"
    by (cases "fst (next_status (script s))") simp_all
  with a have e: "saveRecord L p s = (False, stamped L p, save_failed L p n s)"
    by (simp add: saveRecord_error cfg_in_range)
  show "\<not> fst (saveRecord L p s)"
    and "r_chunk (snd (snd (saveRecord L p s))) = r_chunk s"
    and "w_chunk (snd (snd (saveRecord L p s))) = w_chunk s"
    by (simp_all add: e save_failed_fields)
next
  assume a: "can_write s \<and> w_chunk s < cfg_chunks \<and> fst (next_status (script s)) = HAL_OK"
  then have e: "saveRecord L p s = (True, stamped L p, saved L p s)"
    by (simp add: saveRecord_ok cfg_in_range)
  show "fst (saveRecord L p s)"
    and "r_chunk (snd (snd (saveRecord L p s))) = w_chunk s"
    by (simp_all add: e saved_fields)
  from a show "unat (w_chunk (snd (snd (saveRecord L p s)))) = (unat (w_chunk s) + 1) mod unat cfg_chunks"
    by (simp add: e saved_fields next_w_mod)
qed

theorem saveRecord_pointers_witness:
  "\<not> can_write (power_on erased_ic []) \<and>
   saveRecord sample_layout sample_record (power_on erased_ic [])
     = (False, sample_record, power_on erased_ic []) \<and>
   can_write (EEPROM_init sample_layout (power_on erased_ic [HAL_OK, HAL_ERROR 7])) \<and>
   \<not> fst (saveRecord sample_layout sample_record
            (EEPROM_init sample_layout (power_on erased_ic [HAL_OK, HAL_ERROR 7]))) \<and>
   w_chunk (snd (snd (saveRecord sample_layout sample_record
            (EEPROM_init sample_layout (power_on erased_ic [HAL_OK, HAL_ERROR 7]))))) = 0 \<and>
   can_write (EEPROM_init sample_layout (power_on erased_ic [])) \<and>
   fst (saveRecord sample_layout sample_record (EEPROM_init sample_layout (power_on erased_ic []))) \<and>
   unat (w_chunk (snd (snd (saveRecord sample_layout sample_record
            (EEPROM_init sample_layout (power_on erased_ic [])))))) = 1"
proof -
  let ?s0 = "power_on erased_ic []"
  let ?s1 = "EEPROM_init sample_layout (power_on erased_ic [HAL_OK, HAL_ERROR 7])"
  let ?s2 = "EEPROM_init sample_layout (power_on erased_ic [])"
  have h0: "\<not> can_write ?s0"
    by (simp add: power_on_def)
  have h1: "can_write ?s1 \<and> w_chunk ?s1 < cfg_chunks \<and> fst (next_status (script ?s1)) \<noteq> HAL_OK"
    and w1: "w_chunk ?s1 = 0"
    by code_simp+
  have h2: "can_write ?s2 \<and> w_chunk ?s2 < cfg_chunks \<and> fst (next_status (script ?s2)) = HAL_OK"
    and w2: "unat (w_chunk ?s2) = 0"
    by code_simp+
  have m: "(0 + 1) mod unat cfg_chunks = 1"
    by (simp add: cfg_chunks_def)
  show ?thesis
    using saveRecord_pointers [of ?s0 sample_layout sample_record]
      saveRecord_pointers [of ?s1 sample_layout sample_record]
      saveRecord_pointers [of ?s2 sample_layout sample_record]
      h0 h1 h2 w1 w2 m
    by simp
qed


lemma loadRecord_hit:
  assumes "layout_ok L" "chunk_in_data s = r_chunk s" "length p = rec_sz L"
    and "take (rec_sz L) (data s) = p"
  shows "loadRecord L q s =
           (if get_crc L p = cfg_summ 117 (set_crc L p 0)
            then (True, set_crc L p 0, s\<lparr>data := set_crc L p 0 @ drop (rec_sz L) (data s)\<rparr>)
            else (False, q, s\<lparr>data := set_crc L p 0 @ drop (rec_sz L) (data s)\<rparr>))"
  using assms
  by (simp add: loadRecord_def readChunk_hit CFG_checkSum_data_def CFG_checkSum_read length_set_crc)

lemma stamped_valid:
  assumes "layout_ok L" "length p = rec_sz L"
  shows "get_crc L (stamped L p) = cfg_summ 117 (set_crc L (stamped L p) 0)"
    and "set_crc L (stamped L p) 0 = set_crc L (set_ID L p (get_ID L p + 1)) 0"
  using assms
  by (simp_all add: get_crc_stamped) (simp_all add: stamped_eq set_crc_set_crc length_set_ID)

lemma payload_kept:
  assumes "layout_ok L" "length p = rec_sz L" "i < rec_sz L"
    and "\<not> (id_off L \<le> i \<and> i < id_off L + 4)" "\<not> (crc_off L \<le> i \<and> i < crc_off L + 4)"
  shows "set_crc L (set_ID L p v) w ! i = p ! i"
  using assms
  by (auto simp add: set_crc_def set_ID_def nth_set_u32 length_set_u32 layout_ok_def)

text \<open>
  Claim C2, as amended: when \<open>saveRecord\<close> has stored the record \<open>p\<close>, the \<open>loadRecord\<close>
  that follows succeeds. The record it returns is \<open>p\<close> with the identifier incremented by
  one (32 bit arithmetic) and the checksum field cleared: its identifier is one more than the
  identifier \<open>p\<close> carried into the save, and every byte outside the identifier and checksum
  fields is the byte of \<open>p\<close>.
\<close>

theorem save_then_load:
  assumes "layout_ok L" and "length p = rec_sz L" and "saveRecord L p s = (True, p', s')"
  shows "fst (loadRecord L q s') \<and>
         fst (snd (loadRecord L q s')) = set_crc L (set_ID L p (get_ID L p + 1)) 0 \<and>
         get_ID L (fst (snd (loadRecord L q s'))) = get_ID L p + 1 \<and>
         (\<forall>i<rec_sz L. \<not> (id_off L \<le> i \<and> i < id_off L + 4) \<and>
                        \<not> (crc_off L \<le> i \<and> i < crc_off L + 4) \<longrightarrow>
            fst (snd (loadRecord L q s')) ! i = p ! i)"
proof -
  from saveRecord_success [OF assms(3)] have s': "s' = saved L p s"
    by simp
  have c: "chunk_in_data s' = r_chunk s'"
    by (simp add: s' saved_fields)
  have d: "take (rec_sz L) (data s') = stamped L p"
    using assms(1,2) by (simp add: s' data_saved length_stamped)
  have l: "length (stamped L p) = rec_sz L"
    using assms(1,2) by (rule length_stamped)
  have r: "loadRecord L q s' =
             (True, set_crc L (set_ID L p (get_ID L p + 1)) 0,
              s'\<lparr>data := set_crc L (set_ID L p (get_ID L p + 1)) 0 @ drop (rec_sz L) (data s')\<rparr>)"
    using assms(1,2) by (simp add: loadRecord_hit [OF assms(1) c l d] stamped_valid)
  show ?thesis
    using assms(1,2)
    by (simp add: r get_ID_set_crc get_ID_set_ID length_set_ID payload_kept)
qed

theorem save_then_load_witness:
  "fst (saveRecord sample_layout sample_record (EEPROM_init sample_layout (power_on erased_ic []))) \<and>
   get_ID sample_layout sample_record = 0 \<and>
   fst (loadRecord sample_layout []
          (snd (snd (saveRecord sample_layout sample_record
                       (EEPROM_init sample_layout (power_on erased_ic [])))))) \<and>
   get_ID sample_layout
     (fst (snd (loadRecord sample_layout []
          (snd (snd (saveRecord sample_layout sample_record
                       (EEPROM_init sample_layout (power_on erased_ic [])))))))) = 1"
proof -
  let ?s = "EEPROM_init sample_layout (power_on erased_ic [])"
  let ?r = "saveRecord sample_layout sample_record ?s"
  have ok: "layout_ok sample_layout" and len: "length sample_record = rec_sz sample_layout"
    and id: "get_ID sample_layout sample_record = 0"
    by code_simp+
  have f: "fst ?r"
    by code_simp
  then have e: "?r = (True, fst (snd ?r), snd (snd ?r))"
    by (simp add: prod_eq_iff)
  from save_then_load [OF ok len e, of "[]"]
  have "fst (loadRecord sample_layout [] (snd (snd ?r)))"
    and "get_ID sample_layout (fst (snd (loadRecord sample_layout [] (snd (snd ?r)))))
           = get_ID sample_layout sample_record + 1"
    by blast+
  with f id show ?thesis
    by simp
qed

text \<open>
  Claim C2 as stated measures the loaded identifier against the identifier stored before the
  save. \<open>saveRecord\<close> does not look at the stored record: it increments the identifier of
  the record it is given. After two saves the IC holds the identifier 2 at the read pointer,
  and a load returns it. A save of a fresh record, whose identifier is 0, succeeds, and the
  load that follows returns the identifier 1, not 3.
\<close>

theorem stored_identifier_counterexample:
  "fst (loadRecord sample_layout []
     (snd (snd (saveRecord sample_layout (stamped sample_layout sample_record)
        (snd (snd (saveRecord sample_layout sample_record
           (EEPROM_init sample_layout (power_on erased_ic []))))))))) \<and>
   get_ID sample_layout (fst (snd (loadRecord sample_layout []
     (snd (snd (saveRecord sample_layout (stamped sample_layout sample_record)
        (snd (snd (saveRecord sample_layout sample_record
           (EEPROM_init sample_layout (power_on erased_ic [])))))))))))
     = 2 \<and>
   get_ID sample_layout sample_record = 0 \<and>
   fst (saveRecord sample_layout sample_record
     (snd (snd (saveRecord sample_layout (stamped sample_layout sample_record)
        (snd (snd (saveRecord sample_layout sample_record
           (EEPROM_init sample_layout (power_on erased_ic []))))))))) \<and>
   fst (loadRecord sample_layout []
     (snd (snd (saveRecord sample_layout sample_record
       (snd (snd (saveRecord sample_layout (stamped sample_layout sample_record)
          (snd (snd (saveRecord sample_layout sample_record
             (EEPROM_init sample_layout (power_on erased_ic [])))))))))))) \<and>
   get_ID sample_layout (fst (snd (loadRecord sample_layout []
     (snd (snd (saveRecord sample_layout sample_record
       (snd (snd (saveRecord sample_layout (stamped sample_layout sample_record)
          (snd (snd (saveRecord sample_layout sample_record
             (EEPROM_init sample_layout (power_on erased_ic []))))))))))))))
     = 1"
  by code_simp



subsection \<open>The initialisation scan\<close>

lemma init_scan_visit:
  "init_scan L chunk v s =
     (if chunk < cfg_chunks then
        (case visit L chunk s of
           (Some i, s2) \<Rightarrow> init_scan L (chunk + 1) (note_record v chunk i) s2
         | (None, s2) \<Rightarrow> (v, s2))
      else (v, s))"
  by (subst init_scan.simps) (simp add: visit_def split: prod.splits bool.splits)

lemma of_nat_less_cfg: "k < 64 \<Longrightarrow> (of_nat k :: 16 word) < cfg_chunks"
  by (simp add: cfg_chunks_def word_less_nat_alt unat_of_nat take_bit_nat_eq_self)

lemma init_scan_prefix:
  "k \<le> 64 \<Longrightarrow>
   init_scan L (of_nat k) v s =
     (case valid_prefix L k s of (ids, sf) \<Rightarrow> (track k v ids, sf))"
proof (induction L k s arbitrary: v rule: valid_prefix.induct)
  case (1 L k s)
  show ?case
  proof (cases "k < 64")
    case False
    with "1.prems" have k: "k = 64" by simp
    show ?thesis
      by (subst init_scan_visit, subst valid_prefix.simps) (simp add: k cfg_chunks_def)
  next
    case True
    then have lt: "(of_nat k :: 16 word) < cfg_chunks"
      by (rule of_nat_less_cfg)
    from True have ku: "k < unat cfg_chunks"
      by (simp add: cfg_chunks_def)
    obtain r s1 where vis: "visit L (of_nat k) s = (r, s1)"
      by (cases "visit L (of_nat k) s")
    show ?thesis
    proof (cases r)
      case None
      show ?thesis
        by (subst init_scan_visit, subst valid_prefix.simps) (simp add: lt ku vis None)
    next
      case (Some i)
      obtain ids sf where vp: "valid_prefix L (Suc k) s1 = (ids, sf)"
        by (cases "valid_prefix L (Suc k) s1")
      have "init_scan L (of_nat (Suc k)) v' s1 =
           (case valid_prefix L (Suc k) s1 of (ids, sf) \<Rightarrow> (track (Suc k) v' ids, sf))" for v'
        using "1.IH" [OF ku vis [unfolded Some, symmetric] refl] True by simp
      then have ih: "init_scan L (of_nat k + 1) v' s1 = (track (Suc k) v' ids, sf)" for v'
        by (simp add: vp add.commute)
      show ?thesis
        by (subst init_scan_visit, subst valid_prefix.simps) (simp add: lt ku vis Some ih vp)
    qed
  qed
qed

lemma valid_prefix_length: "length (fst (valid_prefix L k s)) \<le> 64 - k"
proof (induction L k s rule: valid_prefix.induct)
  case (1 L k s)
  show ?case
  proof (cases "k < 64")
    case False
    then show ?thesis
      by (subst valid_prefix.simps) (simp add: cfg_chunks_def)
  next
    case True
    then have ku: "k < unat cfg_chunks"
      by (simp add: cfg_chunks_def)
    obtain r s1 where vis: "visit L (of_nat k) s = (r, s1)"
      by (cases "visit L (of_nat k) s")
    show ?thesis
    proof (cases r)
      case None
      show ?thesis
        by (subst valid_prefix.simps) (simp add: ku vis None)
    next
      case (Some i)
      have "length (fst (valid_prefix L (Suc k) s1)) \<le> 64 - Suc k"
        using "1.IH" [OF ku vis [unfolded Some, symmetric]] by simp
      with True show ?thesis
        by (subst valid_prefix.simps) (cases "valid_prefix L (Suc k) s1", simp add: ku vis Some)
    qed
  qed
qed


lemma scan_inv_start: "scan_inv [] scan_start"
  by (simp add: scan_inv_def scan_start_def)

lemma unat_of_nat_chunk: "k < 64 \<Longrightarrow> unat (of_nat k :: 16 word) = k"
  by (simp add: unat_of_nat take_bit_nat_eq_self)

lemma word32_max: "(x :: 32 word) \<le> 0xffffffff"
proof -
  have "unat x < 2 ^ 32"
    using unsigned_less [of x, where 'a = nat] by simp
  then show ?thesis
    by (simp add: word_le_nat_alt)
qed

lemma scan_inv_step:
  assumes "scan_inv pre v" "length pre < 64"
  shows "scan_inv (pre @ [i]) (note_record v (of_nat (length pre)) i)"
proof (cases "pre = []")
  case True
  with assms show ?thesis
    using word32_max [of i]
    by (auto simp add: scan_inv_def note_record_def Let_def not_less)
next
  case False
  with assms show ?thesis
    apply (simp add: scan_inv_def note_record_def Let_def unat_of_nat_chunk nth_append
        less_Suc_eq not_less)
    apply (intro conjI impI allI)
    apply (auto simp add: nth_append)
    done
qed


lemma scan_inv_track:
  "scan_inv pre v \<Longrightarrow> length pre + length ids \<le> 64 \<Longrightarrow>
   scan_inv (pre @ ids) (track (length pre) v ids)"
proof (induction ids arbitrary: pre v)
  case Nil
  then show ?case by simp
next
  case (Cons i ids)
  from Cons.prems have "scan_inv (pre @ [i]) (note_record v (of_nat (length pre)) i)"
    by (intro scan_inv_step) simp_all
  from Cons.IH [OF this] Cons.prems(2) show ?case
    by simp
qed

lemma scan_inv_Max:
  assumes "scan_inv ids v" "ids \<noteq> []"
  shows "max_rec_ID v = Max (set ids)" and "min_rec_ID v = Min (set ids)"
proof -
  from assms have m: "max_rec_ID v \<in> set ids" "\<forall>y\<in>set ids. y \<le> max_rec_ID v"
    and n: "min_rec_ID v \<in> set ids" "\<forall>y\<in>set ids. min_rec_ID v \<le> y"
    by (auto simp add: scan_inv_def in_set_conv_nth)
  from m show "max_rec_ID v = Max (set ids)"
    by (intro Max_eqI [symmetric]) auto
  from n show "min_rec_ID v = Min (set ids)"
    by (intro Min_eqI [symmetric]) auto
qed

lemma EEPROM_init_track:
  assumes "valid_prefix L 0 s = (ids, sf)"
  shows "EEPROM_init L s =
           (if ids = [] then sf\<lparr>w_chunk := 0, r_chunk := 0, can_write := True\<rparr>
            else sf\<lparr>r_chunk := max_rec_ch (track 0 scan_start ids),
                    w_chunk := (if length ids < 64 then next_w (max_rec_ch (track 0 scan_start ids))
                                else min_rec_ch (track 0 scan_start ids)),
                    can_write := True\<rparr>)"
proof -
  have sc: "init_scan L 0 scan_start s = (track 0 scan_start ids, sf)"
    using init_scan_prefix [of 0 L scan_start s] assms by simp
  have len: "length ids \<le> 64"
    using valid_prefix_length [of L 0 s] assms by simp
  have inv: "scan_inv ids (track 0 scan_start ids)"
    using scan_inv_track [OF scan_inv_start, of ids] len by simp
  then have rec: "records (track 0 scan_start ids) = of_nat (length ids)"
    by (simp add: scan_inv_def)
  have z: "records (track 0 scan_start ids) = 0 \<longleftrightarrow> ids = []"
    using len by (simp add: rec word_eq_iff_unsigned [where 'a = nat] unat_of_nat take_bit_nat_eq_self)
  have f: "records (track 0 scan_start ids) < cfg_chunks \<longleftrightarrow> length ids < 64"
    using len by (simp add: rec cfg_chunks_def word_less_nat_alt unat_of_nat take_bit_nat_eq_self)
  show ?thesis
    by (simp add: EEPROM_init_def sc z f Let_def next_w_def)
qed

lemma EEPROM_init_writable: "can_write (EEPROM_init L s)"
  by (cases "valid_prefix L 0 s") (simp add: EEPROM_init_track)

lemma EEPROM_init_w_chunk: "w_chunk (EEPROM_init L s) < cfg_chunks"
proof -
  obtain ids sf where vp: "valid_prefix L 0 s = (ids, sf)"
    by (cases "valid_prefix L 0 s")
  have len: "length ids \<le> 64"
    using valid_prefix_length [of L 0 s] vp by simp
  have inv: "scan_inv ids (track 0 scan_start ids)"
    using scan_inv_track [OF scan_inv_start, of ids] len by simp
  show ?thesis
  proof (cases "ids = []")
    case True
    then show ?thesis
      by (simp add: EEPROM_init_track [OF vp] cfg_chunks_def)
  next
    case False
    with inv len have "unat (min_rec_ch (track 0 scan_start ids)) < 64"
      by (simp add: scan_inv_def)
    then have "min_rec_ch (track 0 scan_start ids) < cfg_chunks"
      by (simp add: cfg_chunks_def word_less_nat_alt)
    with False show ?thesis
      by (simp add: EEPROM_init_track [OF vp] next_w_less)
  qed
qed

text \<open>
  Claim C4: \<open>EEPROM_init\<close> ends in the state in which the scan of the specification ends
  (same buffer, cache mark, IC, script and trace of transport calls, so it has visited the
  same chunks in the same order and stopped at the same chunk), with the writable flag set
  and the pointers as follows. Let \<open>ids\<close> be the identifiers of the valid records the scan
  found, in chunk order. When there is none, both pointers are 0. Otherwise the read pointer
  is the (first) chunk holding the largest identifier; the write pointer is the read pointer
  plus 1, wrapped at the end of the area, when fewer than 64 records were found, and the
  (first) chunk holding the smallest identifier when all 64 chunks hold valid records.
  Identifiers are compared as unsigned 32 bit numbers.
\<close>

theorem EEPROM_init_pointers:
  assumes "valid_prefix L 0 s = (ids, sf)"
  shows "EEPROM_init L s = sf\<lparr>can_write := True, r_chunk := r_chunk (EEPROM_init L s),
                                w_chunk := w_chunk (EEPROM_init L s)\<rparr> \<and>
         (ids = [] \<longrightarrow> r_chunk (EEPROM_init L s) = 0 \<and> w_chunk (EEPROM_init L s) = 0) \<and>
         (ids \<noteq> [] \<longrightarrow>
            unat (r_chunk (EEPROM_init L s)) < length ids \<and>
            ids ! unat (r_chunk (EEPROM_init L s)) = Max (set ids) \<and>
            (\<forall>j<unat (r_chunk (EEPROM_init L s)). ids ! j < Max (set ids)) \<and>
            (length ids < 64 \<longrightarrow>
               unat (w_chunk (EEPROM_init L s))
                 = (unat (r_chunk (EEPROM_init L s)) + 1) mod unat cfg_chunks) \<and>
            (length ids = 64 \<longrightarrow>
               unat (w_chunk (EEPROM_init L s)) < length ids \<and>
               ids ! unat (w_chunk (EEPROM_init L s)) = Min (set ids) \<and>
               (\<forall>j<unat (w_chunk (EEPROM_init L s)). Min (set ids) < ids ! j)))"
proof -
  let ?v = "track 0 scan_start ids"
  note e = EEPROM_init_track [OF assms]
  have len: "length ids \<le> 64"
    using valid_prefix_length [of L 0 s] assms by simp
  have inv: "scan_inv ids ?v"
    using scan_inv_track [OF scan_inv_start, of ids] len by simp
  have a: "EEPROM_init L s = sf\<lparr>can_write := True, r_chunk := r_chunk (EEPROM_init L s),
                                w_chunk := w_chunk (EEPROM_init L s)\<rparr>"
    by (simp add: e)
  have b: "r_chunk (EEPROM_init L s) = 0 \<and> w_chunk (EEPROM_init L s) = 0" if "ids = []"
    using that by (simp add: e)
  have c: "unat (r_chunk (EEPROM_init L s)) < length ids \<and>
            ids ! unat (r_chunk (EEPROM_init L s)) = Max (set ids) \<and>
            (\<forall>j<unat (r_chunk (EEPROM_init L s)). ids ! j < Max (set ids)) \<and>
            (length ids < 64 \<longrightarrow>
               unat (w_chunk (EEPROM_init L s))
                 = (unat (r_chunk (EEPROM_init L s)) + 1) mod unat cfg_chunks) \<and>
            (length ids = 64 \<longrightarrow>
               unat (w_chunk (EEPROM_init L s)) < length ids \<and>
               ids ! unat (w_chunk (EEPROM_init L s)) = Min (set ids) \<and>
               (\<forall>j<unat (w_chunk (EEPROM_init L s)). Min (set ids) < ids ! j))" if ne: "ids \<noteq> []"
  proof -
    have r: "r_chunk (EEPROM_init L s) = max_rec_ch ?v"
      using ne by (simp add: e)
    have mx: "max_rec_ID ?v = Max (set ids)" and mn: "min_rec_ID ?v = Min (set ids)"
      using scan_inv_Max [OF inv ne] by simp_all
    from inv ne have i1: "unat (max_rec_ch ?v) < length ids"
      and i2: "ids ! unat (max_rec_ch ?v) = max_rec_ID ?v"
      and i3: "\<forall>j<unat (max_rec_ch ?v). ids ! j < max_rec_ID ?v"
      and i4: "ids ! unat (min_rec_ch ?v) = min_rec_ID ?v"
      and i6: "unat (min_rec_ch ?v) < length ids"
      and i5: "\<forall>j<unat (min_rec_ch ?v). min_rec_ID ?v < ids ! j"
      by (simp_all add: scan_inv_def)
    from i1 len have rl: "max_rec_ch ?v < cfg_chunks"
      by (simp add: cfg_chunks_def word_less_nat_alt)
    have w1: "unat (w_chunk (EEPROM_init L s)) = (unat (max_rec_ch ?v) + 1) mod unat cfg_chunks"
      if "length ids < 64"
      using that ne by (simp add: e next_w_mod [OF rl])
    have w2: "w_chunk (EEPROM_init L s) = min_rec_ch ?v" if "length ids = 64"
      using that ne by (simp add: e)
    from i1 i2 i3 i4 i5 i6 w1 w2 show ?thesis
      by (simp add: r mx mn)
  qed
  from a b c show ?thesis
    by blast
qed




subsection \<open>Filling the configuration area\<close>

lemma mem_saved_below: "a < unat (w_chunk s) * 32 \<Longrightarrow> mem (saved L p s) a = mem s a"
  by (simp add: saved_def mem_store_def)

lemma mem_block_cong:
  "(\<And>x. a \<le> x \<Longrightarrow> x < a + n \<Longrightarrow> m x = m' x) \<Longrightarrow> mem_block m a n = mem_block m' a n"
  by (simp add: mem_block_def)

lemma get_ID_funpow:
  "layout_ok L \<Longrightarrow> length p = rec_sz L \<Longrightarrow>
   length ((stamped L ^^ k) p) = rec_sz L \<and> get_ID L ((stamped L ^^ k) p) = get_ID L p + of_nat k"
  by (induction k) (simp_all add: length_stamped get_ID_stamped)

lemma saves_chunks:
  assumes "layout_ok L"
  shows "length p = rec_sz L \<Longrightarrow> saves L n p s = (True, p', s') \<Longrightarrow>
         unat (w_chunk s) + n \<le> 64 \<Longrightarrow> unat (w_chunk s) < 64 \<Longrightarrow>
         p' = (stamped L ^^ n) p \<and> can_write s' = (can_write s \<or> 0 < n) \<and>
         unat (w_chunk s') = (unat (w_chunk s) + n) mod 64 \<and>
         (\<forall>a < unat (w_chunk s) * 32. mem s' a = mem s a) \<and>
         (\<forall>j<n. mem_block (mem s') ((unat (w_chunk s) + j) * 32) (rec_sz L)
                    = (stamped L ^^ Suc j) p)"
proof (induction n arbitrary: p s)
  case 0
  then show ?case by simp
next
  case (Suc n)
  let ?w = "unat (w_chunk s)"
  from Suc.prems(2) obtain p1 s1 where sv: "saveRecord L p s = (True, p1, s1)"
    and rest: "saves L n p1 s1 = (True, p', s')"
    by (auto split: prod.splits bool.splits)
  from saveRecord_success [OF sv] have p1: "p1 = stamped L p" and s1: "s1 = saved L p s"
    and cw: "can_write s"
    by simp_all
  from Suc.prems(4) have wl: "?w < 64" by simp
  then have wc: "w_chunk s < cfg_chunks"
    by (simp add: cfg_chunks_def word_less_nat_alt)
  have w1: "unat (w_chunk s1) = (?w + 1) mod 64"
    using next_w_mod [OF wc] by (simp add: s1 saved_fields cfg_chunks_def)
  have l1: "length p1 = rec_sz L"
    using assms Suc.prems(1) by (simp add: p1 length_stamped)
  have rs: "rec_sz L \<le> 32"
    using assms by (simp add: layout_ok_def eeprom_chunk_size_def)
  have blk: "mem_block (mem s1) (?w * 32) (rec_sz L) = stamped L p"
    using mem_saved [OF assms Suc.prems(1), of s] by (simp add: s1)
  have low: "mem s1 a = mem s a" if "a < ?w * 32" for a
    using that by (simp add: s1 mem_saved_below)
  show ?case
  proof (cases n)
    case 0
    with rest have "p' = p1" "s' = s1" by simp_all
    with 0 p1 w1 blk low cw show ?thesis
      by (simp add: s1 saved_fields)
  next
    case m: (Suc m)
    with Suc.prems(3) have w63: "?w < 63" by simp
    with w1 have w1': "unat (w_chunk s1) = ?w + 1" by simp
    with Suc.prems(3) w63 have "unat (w_chunk s1) + n \<le> 64" and "unat (w_chunk s1) < 64"
      by simp_all
    from Suc.IH [OF l1 rest this]
    have a: "p' = (stamped L ^^ n) p1"
      and b: "unat (w_chunk s') = (unat (w_chunk s1) + n) mod 64"
      and c: "\<forall>a < unat (w_chunk s1) * 32. mem s' a = mem s1 a"
      and d: "\<forall>j<n. mem_block (mem s') ((unat (w_chunk s1) + j) * 32) (rec_sz L)
                    = (stamped L ^^ Suc j) p1"
      and e: "can_write s'"
      using cw by (simp_all add: s1 saved_fields)
    have first: "mem_block (mem s') (?w * 32) (rec_sz L) = stamped L p"
    proof -
      have "mem_block (mem s') (?w * 32) (rec_sz L) = mem_block (mem s1) (?w * 32) (rec_sz L)"
        using c rs by (intro mem_block_cong) (simp add: w1')
      with blk show ?thesis by simp
    qed
    have blocks: "mem_block (mem s') ((?w + j) * 32) (rec_sz L) = (stamped L ^^ Suc j) p"
      if "j < Suc n" for j
    proof (cases j)
      case 0
      with first show ?thesis by simp
    next
      case (Suc i)
      with that have "i < n" by simp
      with d have "mem_block (mem s') ((unat (w_chunk s1) + i) * 32) (rec_sz L)
                    = (stamped L ^^ Suc i) p1"
        by simp
      then show ?thesis
        by (simp add: Suc w1' p1 funpow_swap1)
    qed
    have lows: "mem s' a = mem s a" if "a < ?w * 32" for a
      using that c low by (simp add: w1')
    from a b blocks lows e show ?thesis
      by (simp add: w1' p1 funpow_swap1)
  qed
qed


lemma saves_succeed:
  "can_write s \<Longrightarrow> script s = [] \<Longrightarrow> w_chunk s < cfg_chunks \<Longrightarrow> fst (saves L n p s)"
proof (induction n arbitrary: p s)
  case 0
  then show ?case by simp
next
  case (Suc n)
  then have e: "saveRecord L p s = (True, stamped L p, saved L p s)"
    by (simp add: saveRecord_ok cfg_in_range)
  have "fst (saves L n (stamped L p) (saved L p s))"
    using Suc.prems by (intro Suc.IH) (simp_all add: saved_fields next_w_less)
  with e show ?case by simp
qed

lemma unat_ID_plus:
  assumes "unat (x :: 32 word) + 64 < 2 ^ 32" "k < 64"
  shows "unat (x + 1 + of_nat k) = unat x + 1 + k"
proof -
  have "unat (x + 1 + of_nat k) = (unat x + 1 + k) mod 2 ^ 32"
    by (simp add: unat_word_ariths unat_of_nat take_bit_nat_eq_self mod_simps)
  with assms show ?thesis by simp
qed

text \<open>
  Claim C8, as amended: let the initialisation scan find no valid record, and let 64
  consecutive saves of the caller's record succeed after it. Then the write pointer is 0
  again. Chunk \<open>k\<close> holds the record of save \<open>k + 1\<close>, whose identifier is the caller's
  initial identifier plus \<open>k + 1\<close> in 32 bit arithmetic; chunk 0 holds the smallest
  identifier of the area when the initial identifier plus 64 is below \<open>2 ^ 32\<close>, that is,
  when the identifier does not wrap round during the 64 saves. The next save that succeeds
  issues its transport write at byte address 0 and leaves its record in chunk 0.
\<close>

theorem wraparound_after_64_saves:
  assumes "layout_ok L" and "length p = rec_sz L"
    and "fst (valid_prefix L 0 s0) = []"
    and "saves L 64 p (EEPROM_init L s0) = (True, p', s')"
  shows "w_chunk s' = 0 \<and> length p' = rec_sz L \<and> get_ID L p' = get_ID L p + 64 \<and>
         (\<forall>k<64. get_ID L (mem_block (mem s') (k * 32) (rec_sz L)) = get_ID L p + 1 + of_nat k) \<and>
         (unat (get_ID L p) + 64 < 2 ^ 32 \<longrightarrow>
            (\<forall>k<64. get_ID L (mem_block (mem s') 0 (rec_sz L))
                       \<le> get_ID L (mem_block (mem s') (k * 32) (rec_sz L)))) \<and>
         (\<forall>q q' s''. length q = rec_sz L \<and> saveRecord L q s' = (True, q', s'') \<longrightarrow>
            trace s'' = trace s' @ [Mem_Write 0] \<and>
            mem_block (mem s'') 0 (rec_sz L) = q')"
proof -
  let ?s = "EEPROM_init L s0"
  from assms(3) have vp: "valid_prefix L 0 s0 = ([], snd (valid_prefix L 0 s0))"
    by (simp add: prod_eq_iff)
  have w0: "w_chunk ?s = 0"
    by (simp add: EEPROM_init_track [OF vp])
  from saves_chunks [OF assms(1,2,4)] w0
  have w: "unat (w_chunk s') = 0" and p': "p' = (stamped L ^^ 64) p"
    and blocks: "\<forall>j<64. mem_block (mem s') (j * 32) (rec_sz L) = (stamped L ^^ Suc j) p"
    by simp_all
  from w have w': "w_chunk s' = 0"
    by (simp add: unat_eq_0)
  have rec: "length p' = rec_sz L \<and> get_ID L p' = get_ID L p + 64"
    using get_ID_funpow [OF assms(1,2), of 64] by (simp add: p')
  have ids: "get_ID L (mem_block (mem s') (k * 32) (rec_sz L)) = get_ID L p + 1 + of_nat k"
    if "k < 64" for k
    using that blocks get_ID_funpow [OF assms(1,2), of "Suc k"] by (simp add: add.commute add.left_commute)
  have least: "get_ID L (mem_block (mem s') 0 (rec_sz L))
                 \<le> get_ID L (mem_block (mem s') (k * 32) (rec_sz L))"
    if nw: "unat (get_ID L p) + 64 < 2 ^ 32" and k: "k < 64" for k
  proof -
    have "unat (get_ID L p + 1 + of_nat 0) = unat (get_ID L p) + 1 + 0"
      using nw by (intro unat_ID_plus) simp_all
    moreover have "unat (get_ID L p + 1 + of_nat k) = unat (get_ID L p) + 1 + k"
      using nw k by (rule unat_ID_plus)
    ultimately show ?thesis
      using ids [OF k] ids [of 0] by (simp add: word_le_nat_alt)
  qed
  have nxt: "trace s'' = trace s' @ [Mem_Write 0] \<and> mem_block (mem s'') 0 (rec_sz L) = q'"
    if "length q = rec_sz L" "saveRecord L q s' = (True, q', s'')" for q q' s''
  proof -
    from saveRecord_success [OF that(2)] have "q' = stamped L q" "s'' = saved L q s'"
      by simp_all
    then show ?thesis
      using mem_saved [OF assms(1) that(1), of s'] by (simp add: saved_fields w)
  qed
  from w' rec ids least nxt show ?thesis
    by blast
qed

lemma saves_state:
  "can_write s \<Longrightarrow> script s = [] \<Longrightarrow> w_chunk s < cfg_chunks \<Longrightarrow>
   can_write (snd (snd (saves L n p s))) \<and> script (snd (snd (saves L n p s))) = []"
proof (induction n arbitrary: p s)
  case 0
  then show ?case by simp
next
  case (Suc n)
  then have e: "saveRecord L p s = (True, stamped L p, saved L p s)"
    by (simp add: saveRecord_ok cfg_in_range)
  have "can_write (snd (snd (saves L n (stamped L p) (saved L p s)))) \<and>
        script (snd (snd (saves L n (stamped L p) (saved L p s)))) = []"
    using Suc.prems by (intro Suc.IH) (simp_all add: saved_fields next_w_less)
  with e show ?case by simp
qed

theorem wraparound_after_64_saves_witness:
  "fst (valid_prefix sample_layout 0 (power_on erased_ic [])) = [] \<and>
   fst (saves sample_layout 64 sample_record (EEPROM_init sample_layout (power_on erased_ic []))) \<and>
   w_chunk (snd (snd (saves sample_layout 64 sample_record
                        (EEPROM_init sample_layout (power_on erased_ic []))))) = 0 \<and>
   get_ID sample_layout
     (mem_block (mem (snd (snd (saves sample_layout 64 sample_record
                        (EEPROM_init sample_layout (power_on erased_ic [])))))) 0 20) = 1 \<and>
   get_ID sample_layout
     (mem_block (mem (snd (snd (saves sample_layout 64 sample_record
                        (EEPROM_init sample_layout (power_on erased_ic [])))))) (63 * 32) 20) = 64 \<and>
   unat (get_ID sample_layout sample_record) + 64 < 2 ^ 32 \<and>
   get_ID sample_layout
     (mem_block (mem (snd (snd (saves sample_layout 64 sample_record
                        (EEPROM_init sample_layout (power_on erased_ic [])))))) 0 20)
   \<le> get_ID sample_layout
     (mem_block (mem (snd (snd (saves sample_layout 64 sample_record
                        (EEPROM_init sample_layout (power_on erased_ic [])))))) (63 * 32) 20) \<and>
   fst (saveRecord sample_layout
          (fst (snd (saves sample_layout 64 sample_record
                        (EEPROM_init sample_layout (power_on erased_ic [])))))
          (snd (snd (saves sample_layout 64 sample_record
                        (EEPROM_init sample_layout (power_on erased_ic [])))))) \<and>
   get_ID sample_layout
     (mem_block (mem (snd (snd (saveRecord sample_layout
          (fst (snd (saves sample_layout 64 sample_record
                        (EEPROM_init sample_layout (power_on erased_ic [])))))
          (snd (snd (saves sample_layout 64 sample_record
                        (EEPROM_init sample_layout (power_on erased_ic []))))))))) 0 20) = 65"
proof -
  let ?s = "EEPROM_init sample_layout (power_on erased_ic [])"
  let ?r = "saves sample_layout 64 sample_record ?s"
  let ?n = "saveRecord sample_layout (fst (snd ?r)) (snd (snd ?r))"
  have ok: "layout_ok sample_layout" and len: "length sample_record = rec_sz sample_layout"
    and id: "get_ID sample_layout sample_record = 0" and sz: "rec_sz sample_layout = 20"
    by code_simp+
  have v: "fst (valid_prefix sample_layout 0 (power_on erased_ic [])) = []"
    by code_simp
  have sc: "script ?s = []"
    by code_simp
  have f: "fst ?r"
    using EEPROM_init_writable sc EEPROM_init_w_chunk by (rule saves_succeed)
  then have e: "?r = (True, fst (snd ?r), snd (snd ?r))"
    by (simp add: prod_eq_iff)
  note t = wraparound_after_64_saves [OF ok len v e]
  from t have w: "w_chunk (snd (snd ?r)) = 0" and lr: "length (fst (snd ?r)) = rec_sz sample_layout"
    and ir: "get_ID sample_layout (fst (snd ?r)) = get_ID sample_layout sample_record + 64"
    by blast+
  have n0: "(0 :: nat) < 64" and n63: "(63 :: nat) < 64"
    by simp_all
  from t n0
  have "get_ID sample_layout (mem_block (mem (snd (snd ?r))) (0 * 32) (rec_sz sample_layout))
                 = get_ID sample_layout sample_record + 1 + of_nat 0"
    by blast
  then have c0: "get_ID sample_layout (mem_block (mem (snd (snd ?r))) 0 20) = 1"
    by (simp add: id sz)
  from t n63
  have "get_ID sample_layout (mem_block (mem (snd (snd ?r))) (63 * 32) (rec_sz sample_layout))
                 = get_ID sample_layout sample_record + 1 + of_nat 63"
    by blast
  then have c63: "get_ID sample_layout (mem_block (mem (snd (snd ?r))) (63 * 32) 20) = 64"
    by (simp add: id sz)
  have nw: "unat (get_ID sample_layout sample_record) + 64 < 2 ^ 32"
    by (simp add: id)
  with t n63
  have "get_ID sample_layout (mem_block (mem (snd (snd ?r))) 0 (rec_sz sample_layout))
          \<le> get_ID sample_layout (mem_block (mem (snd (snd ?r))) (63 * 32) (rec_sz sample_layout))"
    by blast
  then have le: "get_ID sample_layout (mem_block (mem (snd (snd ?r))) 0 20)
          \<le> get_ID sample_layout (mem_block (mem (snd (snd ?r))) (63 * 32) 20)"
    by (simp add: sz)
  have st: "can_write (snd (snd ?r)) \<and> script (snd (snd ?r)) = []"
    using EEPROM_init_writable sc EEPROM_init_w_chunk by (rule saves_state)
  have fn: "fst ?n"
    using st w by (simp add: saveRecord_ok eeprom_chunks_def)
  then have en: "?n = (True, fst (snd ?n), snd (snd ?n))"
    by (simp add: prod_eq_iff)
  from t lr en have "mem_block (mem (snd (snd ?n))) 0 (rec_sz sample_layout) = fst (snd ?n)"
    by blast
  moreover have "fst (snd ?n) = stamped sample_layout (fst (snd ?r))"
    using saveRecord_success [OF en] by simp
  moreover have "get_ID sample_layout (stamped sample_layout (fst (snd ?r))) = 65"
    using ok lr by (simp add: get_ID_stamped ir id)
  ultimately have cn: "get_ID sample_layout (mem_block (mem (snd (snd ?n))) 0 20) = 65"
    by (simp add: sz)
  from v f w c0 c63 nw le fn cn show ?thesis
    by simp
qed

text \<open>
  Claim C8 as stated says that the first chunk holds the smallest identifier after the 64
  saves. The identifier is a 32 bit counter that \<open>saveRecord\<close> increments without a check:
  with a caller's record whose identifier is \<open>0xFFFFFFF0\<close> the 64 saves succeed on an empty
  area and the write pointer is 0 again, but chunk 0 holds \<open>0xFFFFFFF1\<close> and chunk 15 holds
  the identifier 0.
\<close>

theorem identifier_wrap_counterexample:
  "fst (valid_prefix sample_layout 0 (power_on erased_ic [])) = [] \<and>
   fst (saves sample_layout 64 late_record (EEPROM_init sample_layout (power_on erased_ic []))) \<and>
   w_chunk (snd (snd (saves sample_layout 64 late_record
                        (EEPROM_init sample_layout (power_on erased_ic []))))) = 0 \<and>
   get_ID sample_layout
     (mem_block (mem (snd (snd (saves sample_layout 64 late_record
                        (EEPROM_init sample_layout (power_on erased_ic [])))))) 0 20)
     = 0xFFFFFFF1 \<and>
   get_ID sample_layout
     (mem_block (mem (snd (snd (saves sample_layout 64 late_record
                        (EEPROM_init sample_layout (power_on erased_ic [])))))) (15 * 32) 20)
     = 0 \<and>
   get_ID sample_layout
     (mem_block (mem (snd (snd (saves sample_layout 64 late_record
                        (EEPROM_init sample_layout (power_on erased_ic [])))))) (15 * 32) 20)
   < get_ID sample_layout
     (mem_block (mem (snd (snd (saves sample_layout 64 late_record
                        (EEPROM_init sample_layout (power_on erased_ic [])))))) 0 20)"
proof -
  let ?s = "EEPROM_init sample_layout (power_on erased_ic [])"
  let ?r = "saves sample_layout 64 late_record ?s"
  have ok: "layout_ok sample_layout" and len: "length late_record = rec_sz sample_layout"
    and id: "get_ID sample_layout late_record = 0xFFFFFFF0" and sz: "rec_sz sample_layout = 20"
    by code_simp+
  have v: "fst (valid_prefix sample_layout 0 (power_on erased_ic [])) = []"
    by code_simp
  then have vp: "valid_prefix sample_layout 0 (power_on erased_ic [])
                   = ([], snd (valid_prefix sample_layout 0 (power_on erased_ic [])))"
    by (simp add: prod_eq_iff)
  have w0: "w_chunk ?s = 0"
    by (simp add: EEPROM_init_track [OF vp])
  have sc: "script ?s = []"
    by code_simp
  have f: "fst ?r"
    using EEPROM_init_writable sc EEPROM_init_w_chunk by (rule saves_succeed)
  then have e: "?r = (True, fst (snd ?r), snd (snd ?r))"
    by (simp add: prod_eq_iff)
  from saves_chunks [OF ok len e] w0
  have w: "unat (w_chunk (snd (snd ?r))) = 0"
    and blocks: "\<forall>j<64. mem_block (mem (snd (snd ?r))) (j * 32) (rec_sz sample_layout)
                   = (stamped sample_layout ^^ Suc j) late_record"
    by simp_all
  from w have w': "w_chunk (snd (snd ?r)) = 0"
    by (simp add: unat_eq_0)
  have n0: "(0 :: nat) < 64" and n15: "(15 :: nat) < 64"
    by simp_all
  from blocks n0
  have "mem_block (mem (snd (snd ?r))) (0 * 32) (rec_sz sample_layout)
          = (stamped sample_layout ^^ Suc 0) late_record"
    by blast
  then have c0: "get_ID sample_layout (mem_block (mem (snd (snd ?r))) 0 20) = 0xFFFFFFF1"
    using get_ID_funpow [OF ok len, of "Suc 0"] by (simp add: sz id)
  from blocks n15
  have "mem_block (mem (snd (snd ?r))) (15 * 32) (rec_sz sample_layout)
          = (stamped sample_layout ^^ Suc 15) late_record"
    by blast
  then have c15: "get_ID sample_layout (mem_block (mem (snd (snd ?r))) (15 * 32) 20) = 0"
    using get_ID_funpow [OF ok len, of "Suc 15"] by (simp add: sz id)
  have lt: "(0 :: 32 word) < 0xFFFFFFF1"
    by simp
  from v f w' c0 c15 lt show ?thesis
    by simp
qed

subsection \<open>Checksum validation on load\<close>







lemma length_mem_block: "length (mem_block m a n) = n"
  by (simp add: mem_block_def)

lemma take_mem_block: "n \<le> k \<Longrightarrow> take n (mem_block m a k) = mem_block m a n"
  by (auto simp add: mem_block_def intro!: nth_equalityI)





lemma CFG_checkSum_data_eq:
  assumes "layout_ok L" "rec_sz L \<le> length (data s)"
  shows "CFG_checkSum_data L s =
           (get_crc L (take (rec_sz L) (data s))
              = cfg_summ 117 (set_crc L (take (rec_sz L) (data s)) 0),
            s\<lparr>data := set_crc L (take (rec_sz L) (data s)) 0 @ drop (rec_sz L) (data s)\<rparr>)"
  using assms by (simp add: CFG_checkSum_data_def CFG_checkSum_read)






text \<open>
  Claim C6: whenever the cache is marked with a chunk, the buffer equals that chunk on the
  IC. \<open>CFG_checkSum\<close> clears the checksum field of the record it checks, which on load and
  during the scan is the buffer itself, and does not put the stored value back. After
  \<open>EEPROM_init\<close> on an erased IC the cache is marked with chunk 0 and the buffer differs from
  chunk 0. After a save and a load, the buffer differs from the chunk just written, and a
  second load, answered from the buffer, reports that there is no valid record, although the
  IC holds one: after a restart on the same IC the load succeeds.
\<close>

theorem cache_differs_from_device:
  "\<not> cache_coherent (EEPROM_init sample_layout (power_on erased_ic [])) \<and>
   chunk_in_data (EEPROM_init sample_layout (power_on erased_ic [])) = 0 \<and>
   fst (loadRecord sample_layout []
         (snd (snd (saveRecord sample_layout sample_record
                      (EEPROM_init sample_layout (power_on erased_ic [])))))) \<and>
   \<not> cache_coherent (snd (snd (loadRecord sample_layout []
         (snd (snd (saveRecord sample_layout sample_record
                      (EEPROM_init sample_layout (power_on erased_ic [])))))))) \<and>
   \<not> fst (loadRecord sample_layout [] (snd (snd (loadRecord sample_layout []
         (snd (snd (saveRecord sample_layout sample_record
                      (EEPROM_init sample_layout (power_on erased_ic []))))))))) \<and>
   fst (loadRecord sample_layout []
         (EEPROM_init sample_layout (power_on (mem (snd (snd (loadRecord sample_layout []
            (snd (snd (saveRecord sample_layout sample_record
                         (EEPROM_init sample_layout (power_on erased_ic []))))))))) [])))"
  by code_simp


subsection \<open>Restart on a full configuration area\<close>

lemma visit_miss:
  assumes "layout_ok L" "c \<noteq> chunk_in_data s" "c < eeprom_chunks"
    and "fst (next_status (script s)) = HAL_OK"
    and "get_crc L (mem_block (mem s) (unat c * 32) (rec_sz L))
           = cfg_summ 117 (set_crc L (mem_block (mem s) (unat c * 32) (rec_sz L)) 0)"
  shows "fst (visit L c s) = Some (get_ID L (mem_block (mem s) (unat c * 32) (rec_sz L)))"
    and "chunk_in_data (snd (visit L c s)) = c"
    and "mem (snd (visit L c s)) = mem s"
    and "script (snd (visit L c s)) = snd (next_status (script s))"
proof -
  let ?p = "mem_block (mem s) (unat c * 32) (rec_sz L)"
  have rs: "rec_sz L \<le> eeprom_chunk_size"
    using assms(1) by (simp add: layout_ok_def)
  have r: "readChunk c s = (True, read_ok c s)"
    using assms(2,3,4) by (rule readChunk_miss_ok)
  have d: "data (read_ok c s) = mem_block (mem s) (unat c * 32) eeprom_chunk_size"
    by (simp add: read_ok_def)
  have "rec_sz L \<le> length (data (read_ok c s))"
    using rs by (simp add: d length_mem_block)
  note ck = CFG_checkSum_data_eq [OF assms(1) this]
  have t: "take (rec_sz L) (data (read_ok c s)) = ?p"
    using rs by (simp add: d take_mem_block)
  have v: "visit L c s =
             (Some (get_ID L (set_crc L ?p 0 @ drop (rec_sz L) (data (read_ok c s)))),
              (read_ok c s)\<lparr>data := set_crc L ?p 0 @ drop (rec_sz L) (data (read_ok c s))\<rparr>)"
    using assms(5) by (simp add: visit_def r ck t)
  have "id_off L + 4 \<le> length (set_crc L ?p 0)"
    using assms(1) by (simp add: length_set_crc length_mem_block layout_ok_def)
  then have "get_ID L (set_crc L ?p 0 @ drop (rec_sz L) (data (read_ok c s))) = get_ID L ?p"
    using assms(1) by (simp add: get_ID_def [of L "_ @ _"] get_u32_append)
      (simp add: get_ID_def [symmetric] get_ID_set_crc length_mem_block)
  with v show "fst (visit L c s) = Some (get_ID L ?p)"
    by simp
  from v show "chunk_in_data (snd (visit L c s)) = c"
    and "mem (snd (visit L c s)) = mem s"
    and "script (snd (visit L c s)) = snd (next_status (script s))"
    by (simp_all add: read_ok_def)
qed

lemma valid_prefix_all_valid:
  assumes "layout_ok L"
    and "\<And>j. j < 64 \<Longrightarrow> get_crc L (mem_block m (j * 32) (rec_sz L))
           = cfg_summ 117 (set_crc L (mem_block m (j * 32) (rec_sz L)) 0)"
    and "k \<le> 64"
  shows "mem s = m \<Longrightarrow> script s = [] \<Longrightarrow>
         (\<forall>j. k \<le> j \<and> j < 64 \<longrightarrow> chunk_in_data s \<noteq> of_nat j) \<Longrightarrow>
         fst (valid_prefix L k s) = map (\<lambda>j. get_ID L (mem_block m (j * 32) (rec_sz L))) [k..<64]"
  using assms(3)
proof (induction k arbitrary: s rule: inc_induct)
  case base
  have "\<not> (64 :: nat) < unat cfg_chunks"
    by (simp add: cfg_chunks_def)
  then have "valid_prefix L 64 s = ([], s)"
    by (subst valid_prefix.simps) (simp only: if_False)
  then show ?case
    by simp
next
  case (step k)
  then have k: "k < 64" by simp
  let ?c = "of_nat k :: 16 word"
  have u: "unat ?c = k"
    using k by (rule unat_of_nat_chunk)
  have c1: "?c \<noteq> chunk_in_data s"
    using step.prems(3) k by auto
  have c2: "?c < eeprom_chunks"
    using k by (simp add: eeprom_chunks_def word_less_nat_alt u)
  have c3: "fst (next_status (script s)) = HAL_OK"
    by (simp add: step.prems(2))
  have c4: "get_crc L (mem_block (mem s) (unat ?c * 32) (rec_sz L))
           = cfg_summ 117 (set_crc L (mem_block (mem s) (unat ?c * 32) (rec_sz L)) 0)"
    using assms(2) [OF k] by (simp add: u step.prems(1))
  note v = visit_miss [OF assms(1) c1 c2 c3 c4]
  obtain r s1 where rs1: "visit L ?c s = (r, s1)"
    by (cases "visit L ?c s")
  with v have r: "r = Some (get_ID L (mem_block m (k * 32) (rec_sz L)))"
    and s1: "chunk_in_data s1 = ?c" "mem s1 = m" "script s1 = []"
    by (simp_all add: u step.prems)
  have nc: "\<forall>j. Suc k \<le> j \<and> j < 64 \<longrightarrow> chunk_in_data s1 \<noteq> of_nat j"
  proof (intro allI impI)
    fix j
    assume j: "Suc k \<le> j \<and> j < 64"
    then have "unat (of_nat j :: 16 word) = j"
      by (simp add: unat_of_nat_chunk)
    with j u have "unat (of_nat j :: 16 word) \<noteq> unat (of_nat k :: 16 word)"
      by simp
    then have "(of_nat j :: 16 word) \<noteq> of_nat k"
      by auto
    then show "chunk_in_data s1 \<noteq> of_nat j"
      by (simp add: s1)
  qed
  have ih: "fst (valid_prefix L (Suc k) s1)
          = map (\<lambda>j. get_ID L (mem_block m (j * 32) (rec_sz L))) [Suc k..<64]"
    using s1(2,3) nc by (rule step.IH)
  have ku: "k < unat cfg_chunks"
    using k by (simp add: cfg_chunks_def)
  have e: "valid_prefix L k s =
          (case valid_prefix L (Suc k) s1 of
             (ids, s2) \<Rightarrow> (get_ID L (mem_block m (k * 32) (rec_sz L)) # ids, s2))"
    by (subst valid_prefix.simps) (simp add: ku rs1 r)
  have "[k..<64] = k # [Suc k..<64]"
    using k by (rule upt_conv_Cons)
  with ih e show ?case
    by (cases "valid_prefix L (Suc k) s1") simp
qed

lemma scan_after_fill:
  assumes "layout_ok L" and "length p = rec_sz L" and "w_chunk s = 0"
    and "saves L 64 p s = (True, p', s')"
  shows "fst (valid_prefix L 0 (power_on (mem s') []))
           = map (\<lambda>j. get_ID L p + 1 + of_nat j) [0..<64]"
proof -
  from saves_chunks [OF assms(1,2,4)] assms(3)
  have blocks: "\<forall>j<64. mem_block (mem s') (j * 32) (rec_sz L) = (stamped L ^^ Suc j) p"
    by simp
  have valid: "get_crc L (mem_block (mem s') (j * 32) (rec_sz L))
           = cfg_summ 117 (set_crc L (mem_block (mem s') (j * 32) (rec_sz L)) 0)"
    if "j < 64" for j
    using that blocks get_ID_funpow [OF assms(1,2), of j] stamped_valid(1) [OF assms(1)]
    by simp
  have "fst (valid_prefix L 0 (power_on (mem s') []))
          = map (\<lambda>j. get_ID L (mem_block (mem s') (j * 32) (rec_sz L))) [0..<64]"
    using assms(1) valid
  proof (rule valid_prefix_all_valid)
    show "\<forall>j. 0 \<le> j \<and> j < 64 \<longrightarrow> chunk_in_data (power_on (mem s') []) \<noteq> of_nat j"
    proof (intro allI impI)
      fix j :: nat
      assume "0 \<le> j \<and> j < 64"
      then have "unat (of_nat j :: 16 word) = j" and "j \<noteq> 65535"
        by (simp_all add: unat_of_nat_chunk)
      then have "unat (of_nat j :: 16 word) \<noteq> unat (65535 :: 16 word)"
        by simp
      then have "(of_nat j :: 16 word) \<noteq> 65535"
        by auto
      then show "chunk_in_data (power_on (mem s') []) \<noteq> of_nat j"
        by (simp add: power_on_def)
    qed
  qed (simp_all add: power_on_def)
  also have "\<dots> = map (\<lambda>j. get_ID L p + 1 + of_nat j) [0..<64]"
  proof (intro map_cong refl)
    fix j
    assume "j \<in> set [0..<64]"
    then have "mem_block (mem s') (j * 32) (rec_sz L) = (stamped L ^^ Suc j) p"
      using blocks by simp
    then show "get_ID L (mem_block (mem s') (j * 32) (rec_sz L)) = get_ID L p + 1 + of_nat j"
      using get_ID_funpow [OF assms(1,2), of "Suc j"] by (simp add: add.commute add.left_commute)
  qed
  finally show ?thesis .
qed


theorem EEPROM_init_pointers_witness:
  "fst (valid_prefix sample_layout 0 (power_on erased_ic [])) = [] \<and>
   can_write (EEPROM_init sample_layout (power_on erased_ic [])) \<and>
   r_chunk (EEPROM_init sample_layout (power_on erased_ic [])) = 0 \<and>
   w_chunk (EEPROM_init sample_layout (power_on erased_ic [])) = 0 \<and>
   fst (valid_prefix sample_layout 0
     (power_on (mem (snd (snd (saveRecord sample_layout (stamped sample_layout sample_record)
        (snd (snd (saveRecord sample_layout sample_record
           (EEPROM_init sample_layout (power_on erased_ic []))))))))) [])) = [1, 2] \<and>
   unat (r_chunk (EEPROM_init sample_layout
     (power_on (mem (snd (snd (saveRecord sample_layout (stamped sample_layout sample_record)
        (snd (snd (saveRecord sample_layout sample_record
           (EEPROM_init sample_layout (power_on erased_ic []))))))))) []))) = 1 \<and>
   unat (w_chunk (EEPROM_init sample_layout
     (power_on (mem (snd (snd (saveRecord sample_layout (stamped sample_layout sample_record)
        (snd (snd (saveRecord sample_layout sample_record
           (EEPROM_init sample_layout (power_on erased_ic []))))))))) []))) = 2 \<and>
   length (fst (valid_prefix sample_layout 0
     (power_on (mem (snd (snd (saves sample_layout 64 sample_record
        (EEPROM_init sample_layout (power_on erased_ic [])))))) []))) = 64 \<and>
   unat (r_chunk (EEPROM_init sample_layout
     (power_on (mem (snd (snd (saves sample_layout 64 sample_record
        (EEPROM_init sample_layout (power_on erased_ic [])))))) []))) = 63 \<and>
   unat (w_chunk (EEPROM_init sample_layout
     (power_on (mem (snd (snd (saves sample_layout 64 sample_record
        (EEPROM_init sample_layout (power_on erased_ic [])))))) []))) = 0"
proof -
  let ?s0 = "power_on erased_ic []"
  let ?s2 = "power_on (mem (snd (snd (saveRecord sample_layout (stamped sample_layout sample_record)
        (snd (snd (saveRecord sample_layout sample_record
           (EEPROM_init sample_layout (power_on erased_ic []))))))))) []"
  have v0: "fst (valid_prefix sample_layout 0 ?s0) = []"
    by code_simp
  then have e0: "valid_prefix sample_layout 0 ?s0 = ([], snd (valid_prefix sample_layout 0 ?s0))"
    by (simp add: prod_eq_iff)
  have v2: "fst (valid_prefix sample_layout 0 ?s2) = [1, 2]"
    by code_simp
  then have e2: "valid_prefix sample_layout 0 ?s2 = ([1, 2], snd (valid_prefix sample_layout 0 ?s2))"
    by (simp add: prod_eq_iff)
  have c0: "can_write (EEPROM_init sample_layout ?s0)"
    by (subst EEPROM_init_pointers [OF e0, THEN conjunct1]) simp
  have p0: "r_chunk (EEPROM_init sample_layout ?s0) = 0 \<and> w_chunk (EEPROM_init sample_layout ?s0) = 0"
    using EEPROM_init_pointers [OF e0] by blast
  have mx: "Max (set [1, 2 :: 32 word]) = 2"
    by simp
  have r2: "unat (r_chunk (EEPROM_init sample_layout ?s2)) < 2"
    and i2: "[1, 2 :: 32 word] ! unat (r_chunk (EEPROM_init sample_layout ?s2)) = 2"
    and w2: "unat (w_chunk (EEPROM_init sample_layout ?s2))
               = (unat (r_chunk (EEPROM_init sample_layout ?s2)) + 1) mod unat cfg_chunks"
    using EEPROM_init_pointers [OF e2] mx by simp_all
  from r2 i2 have r: "unat (r_chunk (EEPROM_init sample_layout ?s2)) = 1"
    by (cases "unat (r_chunk (EEPROM_init sample_layout ?s2)) = 0") simp_all
  with w2 have w: "unat (w_chunk (EEPROM_init sample_layout ?s2)) = 2"
    by (simp add: cfg_chunks_def)
  let ?b = "EEPROM_init sample_layout (power_on erased_ic [])"
  let ?f = "saves sample_layout 64 sample_record ?b"
  let ?s3 = "power_on (mem (snd (snd ?f))) []"
  let ?ids = "map (\<lambda>j. get_ID sample_layout sample_record + 1 + of_nat j) [0..<64]"
  have ok: "layout_ok sample_layout" and len: "length sample_record = rec_sz sample_layout"
    and id: "get_ID sample_layout sample_record = 0"
    by code_simp+
  have wb: "w_chunk ?b = 0"
    using p0 by simp
  have sb: "script ?b = []"
    by code_simp
  have "fst ?f"
    using c0 sb EEPROM_init_w_chunk by (rule saves_succeed)
  then have ef: "?f = (True, fst (snd ?f), snd (snd ?f))"
    by (simp add: prod_eq_iff)
  have v3: "fst (valid_prefix sample_layout 0 ?s3) = ?ids"
    using ok len wb ef by (rule scan_after_fill)
  then have e3: "valid_prefix sample_layout 0 ?s3 = (?ids, snd (valid_prefix sample_layout 0 ?s3))"
    by (simp add: prod_eq_iff)
  have l3: "length ?ids = 64" and n3: "?ids \<noteq> []"
    by simp_all
  have nth3: "unat (?ids ! j) = j + 1" if "j < 64" for j
  proof -
    have "unat (1 + of_nat j :: 32 word) = (1 + j) mod 2 ^ 32"
      by (simp add: unat_word_ariths unat_of_nat take_bit_nat_eq_self mod_simps)
    with that show ?thesis
      by (simp add: id)
  qed
  have mx3: "Max (set ?ids) = ?ids ! 63"
  proof (rule Max_eqI)
    show "?ids ! 63 \<in> set ?ids"
      by (rule nth_mem) simp
    fix y
    assume "y \<in> set ?ids"
    then obtain j where "j < 64" "y = ?ids ! j"
      by (auto simp add: in_set_conv_nth)
    with nth3 [of j] nth3 [of 63] show "y \<le> ?ids ! 63"
      by (simp add: word_le_nat_alt)
  qed simp
  have mn3: "Min (set ?ids) = ?ids ! 0"
  proof (rule Min_eqI)
    show "?ids ! 0 \<in> set ?ids"
      by (rule nth_mem) simp
    fix y
    assume "y \<in> set ?ids"
    then obtain j where "j < 64" "y = ?ids ! j"
      by (auto simp add: in_set_conv_nth)
    with nth3 [of j] nth3 [of 0] show "?ids ! 0 \<le> y"
      by (simp add: word_le_nat_alt)
  qed simp
  note t3 = EEPROM_init_pointers [OF e3]
  from t3 n3 have rb: "unat (r_chunk (EEPROM_init sample_layout ?s3)) < 64"
    and ri: "?ids ! unat (r_chunk (EEPROM_init sample_layout ?s3)) = Max (set ?ids)"
    by simp_all
  from t3 n3 l3 have wb3: "unat (w_chunk (EEPROM_init sample_layout ?s3)) < 64"
    and wi: "?ids ! unat (w_chunk (EEPROM_init sample_layout ?s3)) = Min (set ?ids)"
    by simp_all
  from ri mx3 have "unat (?ids ! unat (r_chunk (EEPROM_init sample_layout ?s3))) = unat (?ids ! 63)"
    by simp
  with nth3 [OF rb] nth3 [of 63] have r3: "unat (r_chunk (EEPROM_init sample_layout ?s3)) = 63"
    by simp
  from wi mn3 have "unat (?ids ! unat (w_chunk (EEPROM_init sample_layout ?s3))) = unat (?ids ! 0)"
    by simp
  with nth3 [OF wb3] nth3 [of 0] have w3: "unat (w_chunk (EEPROM_init sample_layout ?s3)) = 0"
    by simp
  have len3: "length (fst (valid_prefix sample_layout 0 ?s3)) = 64"
    by (simp add: v3)
  from v0 c0 p0 v2 r w len3 r3 w3 show ?thesis
    by simp
qed


end
